theory Spec2Isabelle
  imports Main
begin

section \<open>HTTP layer\<close>

text \<open>
  The exceptions of \<^verbatim>\<open>api_main_v1.5.py\<close> that the model distinguishes, by class.
  Messages are not modelled (they are only printed). \<open>AttributeError\<close> is what reading
  \<^verbatim>\<open>.status_code\<close> of \<^verbatim>\<open>None\<close> raises, \<open>ValueError\<close> is what
  \<^verbatim>\<open>time.sleep\<close> raises on a negative delay, \<open>TypeError\<close> is what hashing a
  list raises.
\<close>

datatype error = RequestException | RuntimeError | AttributeError | ValueError | TypeError

text \<open>
  A \<^verbatim>\<open>requests.Response\<close>: its status code and its decoded JSON body, typed per
  endpoint. Bodies are taken to be well-formed JSON of the endpoint's shape.
\<close>

record 'a response =
  status_code :: int
  json :: 'a

text \<open>
  One call of \<^verbatim>\<open>requests.request\<close> either returns a response or raises
  \<^verbatim>\<open>requests.exceptions.RequestException\<close>. A remote endpoint, for one request, is a
  function from the attempt number (from 1) to the outcome of that attempt.
\<close>

datatype 'a outcome = Responded "'a response" | TransportFailure

type_synonym 'a endpoint = "int \<Rightarrow> 'a outcome"

text \<open>
  The loop \<^verbatim>\<open>for attempt in range(1, max_retries + 1)\<close> of
  \<^verbatim>\<open>_request_with_retries\<close>, with its two locals \<^verbatim>\<open>last_exc\<close> and
  \<^verbatim>\<open>last_resp\<close> and the list of delays passed to \<^verbatim>\<open>time.sleep\<close> so far. The
  first branch is the code after the loop.
\<close>

function request_attempts ::
  "'a endpoint \<Rightarrow> int \<Rightarrow> int \<Rightarrow> int \<Rightarrow> error option \<Rightarrow> 'a response option \<Rightarrow> int list
     \<Rightarrow> (error + 'a response option) \<times> int list" where
  "request_attempts srv max_retries backoff_factor attempt last_exc last_resp sleeps =
     (if max_retries < attempt then
        (case last_exc of Some e \<Rightarrow> (Inl e, sleeps) | None \<Rightarrow> (Inr last_resp, sleeps))
      else
        (case srv attempt of
           Responded resp \<Rightarrow>
             if status_code resp = 429 \<or> (500 \<le> status_code resp \<and> status_code resp < 600) then
               if attempt = max_retries then (Inr (Some resp), sleeps)
               else if backoff_factor * attempt < 0 then (Inl ValueError, sleeps)
               else request_attempts srv max_retries backoff_factor (attempt + 1)
                      last_exc (Some resp) (sleeps @ [backoff_factor * attempt])
             else (Inr (Some resp), sleeps)
         | TransportFailure \<Rightarrow>
             if attempt = max_retries then (Inl RequestException, sleeps)
             else if backoff_factor * attempt < 0 then (Inl ValueError, sleeps)
             else request_attempts srv max_retries backoff_factor (attempt + 1)
                    (Some RequestException) last_resp (sleeps @ [backoff_factor * attempt])))"
  by pat_completeness auto
termination
  by (relation "measure (\<lambda>(srv, m, b, a, le, lr, s). nat (m + 1 - a))") auto

declare request_attempts.simps [simp del]

text \<open>
  \<^verbatim>\<open>_request_with_retries\<close>: the result (\<open>Inl\<close> an exception raised to the caller,
  \<open>Inr\<close> the value returned, \<open>None\<close> for Python's \<^verbatim>\<open>None\<close>) and the delays slept.
\<close>

definition request_with_retries ::
  "'a endpoint \<Rightarrow> int \<Rightarrow> int \<Rightarrow> (error + 'a response option) \<times> int list" where
  "request_with_retries srv max_retries backoff_factor =
     request_attempts srv max_retries backoff_factor 1 None None []"

text \<open>The keyword defaults \<^verbatim>\<open>max_retries: int = 3\<close>, \<^verbatim>\<open>backoff_factor: int = 2\<close>.\<close>

definition default_max_retries :: int where
  "default_max_retries = 3"

definition default_backoff_factor :: int where
  "default_backoff_factor = 2"

text \<open>
  \<^verbatim>\<open>dc_get\<close> and \<^verbatim>\<open>cloud_get\<close> call \<^verbatim>\<open>_request_with_retries\<close> with the
  defaults; they differ in credentials and certificate only. Every caller reads
  \<^verbatim>\<open>resp.status_code\<close> at once, so a returned \<^verbatim>\<open>None\<close> is an
  \<open>AttributeError\<close> there.
\<close>

definition http_get :: "'a endpoint \<Rightarrow> error + 'a response" where
  "http_get srv =
     (case fst (request_with_retries srv default_max_retries default_backoff_factor) of
        Inl e \<Rightarrow> Inl e
      | Inr None \<Rightarrow> Inl AttributeError
      | Inr (Some resp) \<Rightarrow> Inr resp)"

definition dc_get :: "'a endpoint \<Rightarrow> error + 'a response" where
  "dc_get srv = http_get srv"

definition cloud_get :: "'a endpoint \<Rightarrow> error + 'a response" where
  "cloud_get srv = http_get srv"

text \<open>The condition \<^verbatim>\<open>resp.status_code == 429 or 500 <= resp.status_code < 600\<close>.\<close>

definition retry_status :: "int \<Rightarrow> bool" where
  "retry_status c \<longleftrightarrow> c = 429 \<or> (500 \<le> c \<and> c < 600)"

text \<open>An attempt after which the loop goes on, unless it was the last one allowed.\<close>

fun retryable :: "'a outcome \<Rightarrow> bool" where
  "retryable (Responded resp) = retry_status (status_code resp)"
| "retryable TransportFailure = True"

text \<open>What the caller gets when an attempt ends the loop.\<close>

fun attempt_result :: "'a outcome \<Rightarrow> error + 'a response option" where
  "attempt_result (Responded resp) = Inr (Some resp)"
| "attempt_result TransportFailure = Inl RequestException"

section \<open>Wire formats\<close>

text \<open>
  Decoded JSON bodies, one record per endpoint. A field the code reads with
  \<^verbatim>\<open>.get\<close> is an \<open>option\<close>: \<open>None\<close> is a missing key (or JSON null).
\<close>

text \<open>Python's truth value of an optional string: \<^verbatim>\<open>None\<close> and \<^verbatim>\<open>""\<close> are false.\<close>

fun truthy :: "string option \<Rightarrow> bool" where
  "truthy None = False"
| "truthy (Some s) = (s \<noteq> [])"

text \<open>\<^verbatim>\<open>str(x or "")\<close> for an optional string.\<close>

fun str_or_empty :: "string option \<Rightarrow> string" where
  "str_or_empty None = []"
| "str_or_empty (Some s) = s"

text \<open>\<^verbatim>\<open>a or b or ... or default\<close> over optional strings.\<close>

fun first_truthy :: "string option list \<Rightarrow> string \<Rightarrow> string" where
  "first_truthy [] d = d"
| "first_truthy (None # xs) d = first_truthy xs d"
| "first_truthy (Some s # xs) d = (if s \<noteq> [] then s else first_truthy xs d)"

text \<open>\<^verbatim>\<open>str(x)\<close> as an f-string prints an optional string.\<close>

fun py_str :: "string option \<Rightarrow> string" where
  "py_str None = ''None''"
| "py_str (Some s) = s"

text \<open>
  A status name of the source system as the JSON decoder delivers it. The code reads
  \<^verbatim>\<open>fromString\<close> and \<^verbatim>\<open>toString\<close> without checking their type: \<open>NoName\<close> is
  a missing key or null, \<open>Name\<close> a string, and \<open>Names\<close> a JSON array, here of
  strings, which Python decodes to a list.
\<close>

datatype py_name = NoName | Name string | Names "string list"

text \<open>The truth value of a name: \<^verbatim>\<open>None\<close>, \<^verbatim>\<open>""\<close> and \<^verbatim>\<open>[]\<close> are false.\<close>

fun name_truthy :: "py_name \<Rightarrow> bool" where
  "name_truthy NoName = False"
| "name_truthy (Name s) = (s \<noteq> [])"
| "name_truthy (Names xs) = (xs \<noteq> [])"

text \<open>
  A name in an f-string. A list prints as \<^verbatim>\<open>['a', 'b']\<close>; this is Python's output
  for strings without quotes, backslashes and control characters.
\<close>

fun comma_join :: "string list \<Rightarrow> string" where
  "comma_join [] = []"
| "comma_join [x] = x"
| "comma_join (x # y # ys) = x @ '', '' @ comma_join (y # ys)"

fun name_str :: "py_name \<Rightarrow> string" where
  "name_str NoName = ''None''"
| "name_str (Name s) = s"
| "name_str (Names xs) = ''['' @ comma_join (map (\<lambda>x. [CHR 0x27] @ x @ [CHR 0x27]) xs) @ '']''"

text \<open>
  Python's \<^verbatim>\<open>hash\<close> of a name, as far as equality needs it: a list is unhashable
  and raises \<open>TypeError\<close>.
\<close>

fun hashed :: "py_name \<Rightarrow> error + string option" where
  "hashed NoName = Inr None"
| "hashed (Name s) = Inr (Some s)"
| "hashed (Names xs) = Inl TypeError"

text \<open>An entry of the source system's project list.\<close>

record project_json =
  pj_key :: "string option"
  pj_id :: "string option"
  pj_name :: "string option"

text \<open>The dict \<^verbatim>\<open>{"key": key, "id": pid, "name": name}\<close> built by \<^verbatim>\<open>dc_list_projects\<close>.\<close>

record project =
  p_key :: string
  p_id :: string
  p_name :: string

text \<open>
  The query of the issue search. The code sends the JQL text
  \<^verbatim>\<open>project = <id> [AND updated >= -<n>d] ORDER BY key ASC\<close>; the model keeps its
  two variable parts.
\<close>

record search_query =
  q_project_id :: string
  q_updated_since :: "int option"

text \<open>
  The body of a search page: \<^verbatim>\<open>issues\<close> (each issue reduced to its \<^verbatim>\<open>key\<close>)
  and \<^verbatim>\<open>total\<close>.
\<close>

record search_payload =
  sp_issues :: "string list option"
  sp_total :: "int option"

text \<open>
  A changelog item of the target system, the author of a history entry, and a history
  entry (change group) of the target system.
\<close>

record item =
  field :: "string option"
  fromString :: "string option"
  from_id :: "string option"
  toString :: "string option"
  to_id :: "string option"

record author =
  displayName :: "string option"
  login_name :: "string option"
  emailAddress :: "string option"

record history =
  h_author :: "author option"
  h_created :: "string option"
  h_id :: "string option"
  h_items :: "item list"

text \<open>A changelog item and a history entry of the source system.\<close>

record dc_item =
  dc_field :: "string option"
  dc_fromString :: py_name
  dc_from :: "string option"
  dc_toString :: py_name
  dc_to :: "string option"

record dc_history =
  dc_author :: "author option"
  dc_created :: "string option"
  dc_history_id :: "string option"
  dc_items :: "dc_item list"

text \<open>
  A source issue fetched with \<^verbatim>\<open>expand=changelog\<close>: its id and
  \<^verbatim>\<open>changelog.histories\<close> (empty when missing). \<^verbatim>\<open>changelog.total\<close> only
  feeds a printed warning and is left out.
\<close>

record dc_issue_payload =
  di_id :: "string option"
  di_histories :: "dc_history list"

text \<open>A page of the target system's changelog, in either of its two wire shapes.\<close>

record changelog_payload =
  cl_values :: "history list option"
  cl_histories :: "history list option"
  cl_total :: "int option"
  cl_isLast :: "bool option"

record cloud_issue_payload =
  ci_id :: "string option"

text \<open>
  The two remote systems: for every request the code can send, the endpoint that
  answers it. Requests are identified by what varies in their URL and parameters:
  the API version, the project identifier, the issue key, \<^verbatim>\<open>startAt\<close> and
  \<^verbatim>\<open>maxResults\<close>.
\<close>

record world =
  dc_project_api :: "string \<Rightarrow> project_json list endpoint"
  dc_search_api :: "search_query \<Rightarrow> nat \<Rightarrow> int \<Rightarrow> search_payload endpoint"
  dc_issue_api :: "string \<Rightarrow> string \<Rightarrow> dc_issue_payload endpoint"
  cloud_project_api :: "string \<Rightarrow> unit endpoint"
  cloud_changelog_api :: "string \<Rightarrow> nat \<Rightarrow> int \<Rightarrow> changelog_payload endpoint"
  cloud_issue_api :: "string \<Rightarrow> cloud_issue_payload endpoint"

section \<open>Source-system helpers\<close>

text \<open>
  The body of the loop over \<^verbatim>\<open>projects\<close> in \<^verbatim>\<open>dc_list_projects\<close>: an entry
  is kept when \<^verbatim>\<open>key and pid\<close> holds.
\<close>

definition parse_project :: "project_json \<Rightarrow> project option" where
  "parse_project p =
     (let key = pj_key p;
          pid = str_or_empty (pj_id p)
      in case key of
           None \<Rightarrow> None
         | Some k \<Rightarrow>
             if k \<noteq> [] \<and> pid \<noteq> [] then
               Some \<lparr>p_key = k, p_id = pid, p_name = first_truthy [pj_name p] k\<rparr>
             else None)"

definition parse_projects :: "project_json list \<Rightarrow> project list" where
  "parse_projects projects = List.map_filter parse_project projects"

text \<open>
  The loop \<^verbatim>\<open>for ver in (...)\<close> of \<^verbatim>\<open>dc_list_projects\<close> over the versions still
  to try; falling out of the loop raises \<open>RuntimeError\<close>.
\<close>

fun dc_list_versions :: "world \<Rightarrow> string list \<Rightarrow> error + project list" where
  "dc_list_versions w [] = Inl RuntimeError"
| "dc_list_versions w (ver # vers) =
     (case dc_get (dc_project_api w ver) of
        Inl e \<Rightarrow> Inl e
      | Inr resp \<Rightarrow>
          if status_code resp = 200 then Inr (parse_projects (json resp))
          else dc_list_versions w vers)"

definition dc_list_projects :: "world \<Rightarrow> error + project list" where
  "dc_list_projects w = dc_list_versions w [''2'', ''3'']"

text \<open>The JQL built at the top of \<^verbatim>\<open>dc_search_issue_keys_for_project\<close>.\<close>

definition build_jql :: "string \<Rightarrow> int option \<Rightarrow> search_query" where
  "build_jql project_id updated_since_days =
     \<lparr>q_project_id = project_id,
      q_updated_since =
        (case updated_since_days of
           None \<Rightarrow> None
         | Some n \<Rightarrow> if 0 < n then Some n else None)\<rparr>"

text \<open>
  The \<^verbatim>\<open>while True\<close> loop of \<^verbatim>\<open>dc_search_issue_keys_for_project\<close>. It may run
  forever (the server chooses \<^verbatim>\<open>total\<close> anew on every page), so its value is an
  \<open>option\<close>: \<open>None\<close> when it does not return.
\<close>

partial_function (option) dc_search_loop ::
  "world \<Rightarrow> search_query \<Rightarrow> int \<Rightarrow> nat \<Rightarrow> string list \<Rightarrow> (error + string list) option" where
  "dc_search_loop w jql page_size start_at keys =
     (case dc_get (dc_search_api w jql start_at page_size) of
        Inl e \<Rightarrow> Some (Inl e)
      | Inr resp \<Rightarrow>
          if status_code resp \<noteq> 200 then Some (Inl RuntimeError)
          else
            let payload = json resp;
                issues = (case sp_issues payload of None \<Rightarrow> [] | Some is \<Rightarrow> is)
            in if issues = [] then Some (Inr keys)
               else
                 let keys' = keys @ issues;
                     total = (case sp_total payload of None \<Rightarrow> 0 | Some t \<Rightarrow> t);
                     start_at' = start_at + length issues
                 in if total \<le> int start_at' then Some (Inr keys')
                    else dc_search_loop w jql page_size start_at' keys')"

declare dc_search_loop.simps [code]

definition dc_search_issue_keys_for_project ::
  "world \<Rightarrow> string \<Rightarrow> int option \<Rightarrow> int \<Rightarrow> (error + string list) option" where
  "dc_search_issue_keys_for_project w project_id updated_since_days page_size =
     dc_search_loop w (build_jql project_id updated_since_days) page_size 0 []"

text \<open>A StatusTransitionEvent: the dict yielded by \<^verbatim>\<open>dc_iter_status_changes\<close>.\<close>

record event =
  ev_issueKey :: string
  ev_dcIssueId :: string
  ev_from_name :: py_name
  ev_from_id :: "string option"
  ev_to_name :: py_name
  ev_to_id :: "string option"
  ev_author :: string
  ev_timestamp :: string
  ev_changegroup_Id :: string
  ev_changeitem_Id :: string

text \<open>The version loop of \<^verbatim>\<open>dc_iter_status_changes\<close> and the check after it.\<close>

fun dc_issue_versions :: "world \<Rightarrow> string \<Rightarrow> string list \<Rightarrow> error + dc_issue_payload" where
  "dc_issue_versions w issue_key [] = Inl RuntimeError"
| "dc_issue_versions w issue_key (ver # vers) =
     (case dc_get (dc_issue_api w ver issue_key) of
        Inl e \<Rightarrow> Inl e
      | Inr r \<Rightarrow>
          if status_code r = 200 then Inr (json r)
          else dc_issue_versions w issue_key vers)"

definition history_author :: "dc_history \<Rightarrow> string" where
  "history_author h =
     (case dc_author h of
        None \<Rightarrow> ''Unknown''
      | Some a \<Rightarrow> first_truthy [displayName a, login_name a, emailAddress a] ''Unknown'')"

definition status_event :: "string \<Rightarrow> string \<Rightarrow> dc_history \<Rightarrow> dc_item \<Rightarrow> event" where
  "status_event issue_key dc_issue_id h it =
     \<lparr>ev_issueKey = issue_key,
      ev_dcIssueId = dc_issue_id,
      ev_from_name = dc_fromString it,
      ev_from_id = dc_from it,
      ev_to_name = dc_toString it,
      ev_to_id = dc_to it,
      ev_author = history_author h,
      ev_timestamp = str_or_empty (dc_created h),
      ev_changegroup_Id = str_or_empty (dc_history_id h),
      ev_changeitem_Id = str_or_empty (dc_history_id h)\<rparr>"

definition history_events :: "string \<Rightarrow> string \<Rightarrow> dc_history \<Rightarrow> event list" where
  "history_events issue_key dc_issue_id h =
     map (status_event issue_key dc_issue_id h)
       (filter (\<lambda>it. dc_field it = Some ''status'') (dc_items h))"

text \<open>
  \<^verbatim>\<open>dc_iter_status_changes\<close> is a generator; every exception it can raise comes
  before its first \<^verbatim>\<open>yield\<close>, so it is modelled by the list it yields.
\<close>

definition dc_iter_status_changes :: "world \<Rightarrow> string \<Rightarrow> error + event list" where
  "dc_iter_status_changes w issue_key =
     (case dc_issue_versions w issue_key [''2'', ''3''] of
        Inl e \<Rightarrow> Inl e
      | Inr data \<Rightarrow>
          Inr (concat (map (history_events issue_key (str_or_empty (di_id data)))
                        (di_histories data))))"

section \<open>Target-system helpers\<close>

text \<open>
  The loop \<^verbatim>\<open>for identifier in (project_key, project_id)\<close> of
  \<^verbatim>\<open>cloud_project_exists\<close>. Only \<open>RequestException\<close> is caught.
\<close>

fun cloud_project_lookup :: "world \<Rightarrow> string list \<Rightarrow> error + bool" where
  "cloud_project_lookup w [] = Inr False"
| "cloud_project_lookup w (identifier # rest) =
     (case cloud_get (cloud_project_api w identifier) of
        Inl RequestException \<Rightarrow> Inr False
      | Inl e \<Rightarrow> Inl e
      | Inr resp \<Rightarrow>
          if status_code resp = 200 then Inr True
          else if status_code resp = 404 then cloud_project_lookup w rest
          else Inr False)"

definition cloud_project_exists :: "world \<Rightarrow> string \<Rightarrow> string \<Rightarrow> error + bool" where
  "cloud_project_exists w project_key project_id =
     cloud_project_lookup w [project_key, project_id]"

type_synonym status_pair = "string option \<times> string option"

text \<open>\<^verbatim>\<open>payload.get("values") or payload.get("histories") or []\<close>.\<close>

definition page_histories :: "changelog_payload \<Rightarrow> history list" where
  "page_histories payload =
     (case cl_values payload of
        Some (h # hs) \<Rightarrow> h # hs
      | _ \<Rightarrow> (case cl_histories payload of Some hs \<Rightarrow> hs | None \<Rightarrow> []))"

text \<open>The pairs that the two nested loops over a page add to \<^verbatim>\<open>pairs\<close>.\<close>

definition status_pairs_of :: "history list \<Rightarrow> status_pair set" where
  "status_pairs_of histories =
     set (map (\<lambda>it. (fromString it, toString it))
            (filter (\<lambda>it. field it = Some ''status'') (concat (map h_items histories))))"

text \<open>
  The \<^verbatim>\<open>while True\<close> loop of \<^verbatim>\<open>cloud_fetch_status_pairs\<close>; \<open>None\<close> when it does
  not return.
\<close>

partial_function (option) cloud_fetch_loop ::
  "world \<Rightarrow> string \<Rightarrow> nat \<Rightarrow> status_pair set \<Rightarrow> (error + status_pair set) option" where
  "cloud_fetch_loop w issue_key start_at pairs =
     (case cloud_get (cloud_changelog_api w issue_key start_at 100) of
        Inl e \<Rightarrow> Some (Inl e)
      | Inr resp \<Rightarrow>
          if status_code resp \<noteq> 200 then Some (Inl RuntimeError)
          else
            let payload = json resp;
                histories = page_histories payload;
                pairs' = pairs \<union> status_pairs_of histories;
                total = cl_total payload;
                start_at' = start_at + length histories
            in (case total of
                  Some t \<Rightarrow>
                    if t \<le> int start_at' then Some (Inr pairs')
                    else cloud_fetch_loop w issue_key start_at' pairs'
                | None \<Rightarrow>
                    if histories = [] \<or> (case cl_isLast payload of None \<Rightarrow> True | Some b \<Rightarrow> b)
                    then Some (Inr pairs')
                    else cloud_fetch_loop w issue_key start_at' pairs'))"

declare cloud_fetch_loop.simps [code]

definition cloud_fetch_status_pairs :: "world \<Rightarrow> string \<Rightarrow> (error + status_pair set) option" where
  "cloud_fetch_status_pairs w issue_key = cloud_fetch_loop w issue_key 0 {}"

definition cloud_get_issue_id :: "world \<Rightarrow> string \<Rightarrow> error + string" where
  "cloud_get_issue_id w issue_key =
     (case cloud_get (cloud_issue_api w issue_key) of
        Inl e \<Rightarrow> Inl e
      | Inr resp \<Rightarrow>
          if status_code resp \<noteq> 200 then Inl RuntimeError
          else Inr (str_or_empty (ci_id (json resp))))"

section \<open>Per-project run\<close>

text \<open>A DriftRow: one row of the report, as built in the comparison loop.\<close>

record drift_row =
  issueKey :: string
  dc_issue_id :: string
  cloud_issue_id :: string
  transition :: string
  from_status :: string
  to_status :: string
  author :: string
  timestamp :: string
  changegroup_Id :: string
  changeitem_Id :: string

text \<open>
  \<^verbatim>\<open>dc_transitions_by_issue\<close> is a \<^verbatim>\<open>defaultdict(list)\<close>; a Python dict is
  iterated in the order its keys were first inserted, so it is an association list.
  \<open>dict_append d k v\<close> is \<^verbatim>\<open>d[k].append(v)\<close>.
\<close>

type_synonym transitions = "(string \<times> event list) list"

fun dict_append :: "(string \<times> 'a list) list \<Rightarrow> string \<Rightarrow> 'a \<Rightarrow> (string \<times> 'a list) list" where
  "dict_append [] k v = [(k, [v])]"
| "dict_append ((k', vs) # d) k v =
     (if k' = k then (k', vs @ [v]) # d else (k', vs) # dict_append d k v)"

text \<open>\<^verbatim>\<open>d.get(key, "")\<close> on a dict of strings.\<close>

definition get_or_empty :: "(string \<rightharpoonup> string) \<Rightarrow> string \<Rightarrow> string" where
  "get_or_empty m k = (case m k of None \<Rightarrow> [] | Some v \<Rightarrow> v)"

text \<open>
  The inner loop \<^verbatim>\<open>for change in dc_iter_status_changes(key)\<close>: a change with both
  names present is appended under \<^verbatim>\<open>key\<close>, and the first one fixes the issue's
  source id.
\<close>

fun record_changes ::
  "string \<Rightarrow> event list \<Rightarrow> transitions \<times> (string \<rightharpoonup> string) \<Rightarrow> transitions \<times> (string \<rightharpoonup> string)" where
  "record_changes key [] st = st"
| "record_changes key (change # changes) (by_issue, id_map) =
     (if name_truthy (ev_from_name change) \<and> name_truthy (ev_to_name change) then
        record_changes key changes
          (dict_append by_issue key change,
           if id_map key = None then id_map(key \<mapsto> ev_dcIssueId change) else id_map)
      else record_changes key changes (by_issue, id_map))"

text \<open>
  The first loop over \<^verbatim>\<open>issue_keys\<close>: an exception of the fetch skips the issue
  (\<^verbatim>\<open>continue\<close>).
\<close>

fun dc_changelogs ::
  "world \<Rightarrow> string list \<Rightarrow> transitions \<times> (string \<rightharpoonup> string) \<Rightarrow> transitions \<times> (string \<rightharpoonup> string)" where
  "dc_changelogs w [] st = st"
| "dc_changelogs w (key # keys) st =
     (case dc_iter_status_changes w key of
        Inl e \<Rightarrow> dc_changelogs w keys st
      | Inr changes \<Rightarrow> dc_changelogs w keys (record_changes key changes st))"

text \<open>
  The loop over \<^verbatim>\<open>dc_transitions_by_issue.keys()\<close> filling \<^verbatim>\<open>cloud_cache\<close> and
  \<^verbatim>\<open>cloud_issue_id_map\<close>. Both fetches are in one \<^verbatim>\<open>try\<close>: an exception of
  either stores \<^verbatim>\<open>None\<close> and \<^verbatim>\<open>""\<close>. The loop does not return when a pair fetch
  does not.
\<close>

type_synonym cloud_cache = "string \<rightharpoonup> status_pair set option"

fun cloud_changelogs ::
  "world \<Rightarrow> string list \<Rightarrow> cloud_cache \<times> (string \<rightharpoonup> string) \<Rightarrow> (cloud_cache \<times> (string \<rightharpoonup> string)) option" where
  "cloud_changelogs w [] st = Some st"
| "cloud_changelogs w (key # keys) (cache, id_map) =
     (case cloud_fetch_status_pairs w key of
        None \<Rightarrow> None
      | Some (Inl e) \<Rightarrow> cloud_changelogs w keys (cache(key \<mapsto> None), id_map(key \<mapsto> []))
      | Some (Inr pairs) \<Rightarrow>
          (case cloud_get_issue_id w key of
             Inl e \<Rightarrow> cloud_changelogs w keys (cache(key \<mapsto> None), id_map(key \<mapsto> []))
           | Inr cid \<Rightarrow> cloud_changelogs w keys (cache(key \<mapsto> Some pairs), id_map(key \<mapsto> cid))))"

text \<open>The arrow of \<^verbatim>\<open>transition_str\<close> (U+2192), as its three UTF-8 bytes.\<close>

definition arrow :: string where
  "arrow = [CHR 0xE2, CHR 0x86, CHR 0x92]"

definition make_row :: "string \<Rightarrow> string \<Rightarrow> string \<Rightarrow> event \<Rightarrow> drift_row" where
  "make_row key dc_id cloud_id entry =
     \<lparr>issueKey = key,
      dc_issue_id = dc_id,
      cloud_issue_id = cloud_id,
      transition = name_str (ev_from_name entry) @ '' '' @ arrow @ '' '' @ name_str (ev_to_name entry),
      from_status = name_str (ev_from_name entry) @ '' ('' @ py_str (ev_from_id entry) @ '')'',
      to_status = name_str (ev_to_name entry) @ '' ('' @ py_str (ev_to_id entry) @ '')'',
      author = ev_author entry,
      timestamp = ev_timestamp entry,
      changegroup_Id = ev_changegroup_Id entry,
      changeitem_Id = ev_changeitem_Id entry\<rparr>"

text \<open>
  The tuple \<^verbatim>\<open>(f_name, t_name)\<close> as the test
  \<^verbatim>\<open>(f_name, t_name) not in cloud_pairs\<close> hashes it, left to right. The test raises
  \<open>TypeError\<close> when a name is a list.
\<close>

definition pair_of :: "event \<Rightarrow> error + status_pair" where
  "pair_of entry =
     (case hashed (ev_from_name entry) of
        Inl e \<Rightarrow> Inl e
      | Inr f_name \<Rightarrow>
          (case hashed (ev_to_name entry) of
             Inl e \<Rightarrow> Inl e
           | Inr t_name \<Rightarrow> Inr (f_name, t_name)))"

text \<open>
  The inner loop \<^verbatim>\<open>for entry in entries\<close> of the comparison: the rows it appends
  to \<^verbatim>\<open>missing_rows\<close>, or the exception of the first test that raises. The row is
  built before the test, as in the source.
\<close>

fun compare_entries ::
  "string \<Rightarrow> string \<Rightarrow> string \<Rightarrow> status_pair set \<Rightarrow> event list \<Rightarrow> error + drift_row list" where
  "compare_entries key dc_id cloud_id cloud_pairs [] = Inr []"
| "compare_entries key dc_id cloud_id cloud_pairs (entry # entries) =
     (let row = make_row key dc_id cloud_id entry
      in case pair_of entry of
           Inl e \<Rightarrow> Inl e
         | Inr pair \<Rightarrow>
             (case compare_entries key dc_id cloud_id cloud_pairs entries of
                Inl e \<Rightarrow> Inl e
              | Inr rows \<Rightarrow> Inr (if pair \<notin> cloud_pairs then row # rows else rows)))"

text \<open>
  The comparison loop over \<^verbatim>\<open>dc_transitions_by_issue.items()\<close>: \<open>Inr\<close> the final
  \<^verbatim>\<open>missing_rows\<close>, \<open>Inl\<close> an exception raised on the way. The loop has no
  \<^verbatim>\<open>try\<close> of its own. \<^verbatim>\<open>cloud_cache.get(key)\<close> is \<^verbatim>\<open>None\<close> for a stored
  \<^verbatim>\<open>None\<close> as for a missing key, and the issue is passed over.
\<close>

fun compare_transitions ::
  "transitions \<Rightarrow> cloud_cache \<Rightarrow> (string \<rightharpoonup> string) \<Rightarrow> (string \<rightharpoonup> string)
     \<Rightarrow> error + drift_row list" where
  "compare_transitions [] cache dc_ids cloud_ids = Inr []"
| "compare_transitions ((key, entries) # rest) cache dc_ids cloud_ids =
     (case cache key of
        Some (Some cloud_pairs) \<Rightarrow>
          (case compare_entries key (get_or_empty dc_ids key) (get_or_empty cloud_ids key)
                  cloud_pairs entries of
             Inl e \<Rightarrow> Inl e
           | Inr rows \<Rightarrow>
               (case compare_transitions rest cache dc_ids cloud_ids of
                  Inl e \<Rightarrow> Inl e
                | Inr later \<Rightarrow> Inr (rows @ later)))
      | _ \<Rightarrow> compare_transitions rest cache dc_ids cloud_ids)"

text \<open>
  \<^verbatim>\<open>process_project\<close> from the line after the issue-key search to the last
  \<^verbatim>\<open>write_csv\<close>, for the issue keys the search returned: \<open>Inr\<close> the rows written,
  \<open>Inl\<close> an exception of the comparison.
\<close>

definition reconcile_issues :: "world \<Rightarrow> string list \<Rightarrow> (error + drift_row list) option" where
  "reconcile_issues w issue_keys =
     (if issue_keys = [] then Some (Inr [])
      else
        let (by_issue, dc_ids) = dc_changelogs w issue_keys ([], Map.empty)
        in if by_issue = [] then Some (Inr [])
           else
             (case cloud_changelogs w (map fst by_issue) (Map.empty, Map.empty) of
                None \<Rightarrow> None
              | Some (cache, cloud_ids) \<Rightarrow>
                  Some (compare_transitions by_issue cache dc_ids cloud_ids)))"

text \<open>
  The \<^verbatim>\<open>try\<close> block of \<^verbatim>\<open>process_project\<close>: \<open>Inl\<close> an exception that reaches
  the handler at the project boundary, \<open>Inr\<close> the rows passed to \<^verbatim>\<open>write_csv\<close>.
  The page size of the search is its default, 100.
\<close>

definition process_project_body ::
  "world \<Rightarrow> string \<Rightarrow> string \<Rightarrow> int option \<Rightarrow> (error + drift_row list) option" where
  "process_project_body w project_key project_id updated_since_days =
     (case cloud_project_exists w project_key project_id of
        Inl e \<Rightarrow> Some (Inl e)
      | Inr False \<Rightarrow> Some (Inr [])
      | Inr True \<Rightarrow>
          (case dc_search_issue_keys_for_project w project_id updated_since_days 100 of
             None \<Rightarrow> None
           | Some (Inl e) \<Rightarrow> Some (Inl e)
           | Some (Inr issue_keys) \<Rightarrow> reconcile_issues w issue_keys))"

text \<open>
  \<^verbatim>\<open>process_project\<close>: the rows of the one report it writes. The handler
  \<^verbatim>\<open>except Exception\<close> writes the report with no rows.
\<close>

definition process_project :: "world \<Rightarrow> string \<Rightarrow> string \<Rightarrow> int option \<Rightarrow> drift_row list option" where
  "process_project w project_key project_id updated_since_days =
     (case process_project_body w project_key project_id updated_since_days of
        None \<Rightarrow> None
      | Some (Inl e) \<Rightarrow> Some []
      | Some (Inr rows) \<Rightarrow> Some rows)"

section \<open>Run\<close>

text \<open>
  \<^verbatim>\<open>str.upper\<close> on ASCII letters; other bytes are left as they are.
\<close>

definition upper_char :: "char \<Rightarrow> char" where
  "upper_char c =
     (case map_of (zip ''abcdefghijklmnopqrstuvwxyz'' ''ABCDEFGHIJKLMNOPQRSTUVWXYZ'') c of
        None \<Rightarrow> c
      | Some u \<Rightarrow> u)"

definition upper :: "string \<Rightarrow> string" where
  "upper s = map upper_char s"

text \<open>The parsed command line.\<close>

record args =
  only :: "string list option"
  resume_from :: "string option"
  updated_since_days :: "int option"

text \<open>
  The loop \<^verbatim>\<open>for i, p in enumerate(projects)\<close> with its \<^verbatim>\<open>break\<close>: the index of
  the first project whose upper-cased key is \<^verbatim>\<open>resume_key\<close>, \<open>None\<close> for the
  \<^verbatim>\<open>else\<close> branch of the loop.
\<close>

fun resume_scan :: "string \<Rightarrow> project list \<Rightarrow> nat \<Rightarrow> nat option" where
  "resume_scan resume_key [] i = None"
| "resume_scan resume_key (p # ps) i =
     (if upper (p_key p) = resume_key then Some i else resume_scan resume_key ps (Suc i))"

definition start_index :: "string option \<Rightarrow> project list \<Rightarrow> nat" where
  "start_index resume projects =
     (case resume of
        None \<Rightarrow> 0
      | Some r \<Rightarrow>
          if r = [] then 0
          else (case resume_scan (upper r) projects 0 of None \<Rightarrow> 0 | Some i \<Rightarrow> i))"

text \<open>
  The loop \<^verbatim>\<open>for p in projects[start_index:]\<close>: the reports written, in order, each
  with the project key that names its file.
\<close>

fun run_projects :: "world \<Rightarrow> int option \<Rightarrow> project list \<Rightarrow> (string \<times> drift_row list) list option" where
  "run_projects w days [] = Some []"
| "run_projects w days (p # ps) =
     (case process_project w (p_key p) (p_id p) days of
        None \<Rightarrow> None
      | Some rows \<Rightarrow>
          (case run_projects w days ps of
             None \<Rightarrow> None
           | Some reports \<Rightarrow> Some ((p_key p, rows) # reports)))"

text \<open>\<^verbatim>\<open>main\<close>: \<open>Inl\<close> an exception that ends the run, \<open>Inr\<close> the reports written.\<close>

definition main :: "world \<Rightarrow> args \<Rightarrow> (error + (string \<times> drift_row list) list) option" where
  "main w a =
     (case dc_list_projects w of
        Inl e \<Rightarrow> Some (Inl e)
      | Inr all_projects \<Rightarrow>
          let projects =
                (case only a of
                   Some (k # ks) \<Rightarrow>
                     filter (\<lambda>p. upper (p_key p) \<in> set (map upper (k # ks))) all_projects
                 | _ \<Rightarrow> all_projects)
          in if projects = [] \<and> (case only a of Some (k # ks) \<Rightarrow> True | _ \<Rightarrow> False) then Some (Inr [])
             else map_option Inr
                    (run_projects w (updated_since_days a)
                       (drop (start_index (resume_from a) projects) projects)))"

section \<open>Definitions following the specification's words\<close>

text \<open>
  Project discovery as the specification words it: the API variants tried newest
  first. Compared with \<open>dc_list_projects\<close> below.
\<close>

definition dc_list_projects_newest_first :: "world \<Rightarrow> error + project list" where
  "dc_list_projects_newest_first w = dc_list_versions w [''3'', ''2'']"

text \<open>
  The Project record of an entry that has a key and an id, as the specification
  describes the parse.
\<close>

definition project_of :: "project_json \<Rightarrow> project" where
  "project_of p =
     \<lparr>p_key = str_or_empty (pj_key p),
      p_id = str_or_empty (pj_id p),
      p_name = first_truthy [pj_name p, pj_key p] []\<rparr>"

section \<open>Notions used in the statements\<close>

text \<open>\<^verbatim>\<open>d.get(k, [])\<close> on the association list of a dict of lists.\<close>

definition entries_of :: "(string \<times> 'a list) list \<Rightarrow> string \<Rightarrow> 'a list" where
  "entries_of d k = (case map_of d k of None \<Rightarrow> [] | Some vs \<Rightarrow> vs)"

text \<open>
  The StatusTransitionEvents of one fetch of an issue: the changes with both names
  present, none when the fetch raises.
\<close>

definition valid_changes :: "world \<Rightarrow> string \<Rightarrow> event list" where
  "valid_changes w key =
     (case dc_iter_status_changes w key of
        Inl e \<Rightarrow> []
      | Inr changes \<Rightarrow>
          filter (\<lambda>change. name_truthy (ev_from_name change) \<and> name_truthy (ev_to_name change))
            changes)"

text \<open>
  The StatusTransitionEvents of issue \<open>k\<close> in a project whose search returned
  \<open>issue_keys\<close>: one fetch for each time the search listed the key.
\<close>

definition source_transitions :: "world \<Rightarrow> string list \<Rightarrow> string \<Rightarrow> event list" where
  "source_transitions w issue_keys k =
     concat (map (valid_changes w) (filter (\<lambda>key. key = k) issue_keys))"

text \<open>The source id shown for an issue: that of its first event, empty without one.\<close>

definition source_id :: "event list \<Rightarrow> string" where
  "source_id entries = (case entries of [] \<Rightarrow> [] | e # es \<Rightarrow> ev_dcIssueId e)"

text \<open>
  The target-side fetch of an issue: the pair set and the target id when both requests
  succeed, \<open>None\<close> when either raises or the pair fetch does not return.
\<close>

definition target_fetch :: "world \<Rightarrow> string \<Rightarrow> (status_pair set \<times> string) option" where
  "target_fetch w key =
     (case cloud_fetch_status_pairs w key of
        Some (Inr pairs) \<Rightarrow>
          (case cloud_get_issue_id w key of
             Inr cid \<Rightarrow> Some (pairs, cid)
           | Inl e \<Rightarrow> None)
      | _ \<Rightarrow> None)"

text \<open>
  The test \<^verbatim>\<open>(f_name, t_name) not in cloud_pairs\<close> on an event whose names can be
  hashed: the pair of names is not in the set.
\<close>

definition missing_in :: "status_pair set \<Rightarrow> event \<Rightarrow> bool" where
  "missing_in cloud_pairs entry =
     (case pair_of entry of Inl e \<Rightarrow> False | Inr pair \<Rightarrow> pair \<notin> cloud_pairs)"

text \<open>An event on which the test raises: one of its names is a list.\<close>

definition unhashable :: "event \<Rightarrow> bool" where
  "unhashable entry = isl (pair_of entry)"

text \<open>The rows the comparison collects when no test raises.\<close>

fun drift_rows ::
  "transitions \<Rightarrow> cloud_cache \<Rightarrow> (string \<rightharpoonup> string) \<Rightarrow> (string \<rightharpoonup> string) \<Rightarrow> drift_row list" where
  "drift_rows [] cache dc_ids cloud_ids = []"
| "drift_rows ((key, entries) # rest) cache dc_ids cloud_ids =
     (case cache key of
        Some (Some cloud_pairs) \<Rightarrow>
          map (make_row key (get_or_empty dc_ids key) (get_or_empty cloud_ids key))
            (filter (missing_in cloud_pairs) entries)
          @ drift_rows rest cache dc_ids cloud_ids
      | _ \<Rightarrow> drift_rows rest cache dc_ids cloud_ids)"

text \<open>The events the comparison tests: those of the issues with a pair set in the cache.\<close>

fun tested :: "transitions \<Rightarrow> cloud_cache \<Rightarrow> event list" where
  "tested [] cache = []"
| "tested ((key, entries) # rest) cache =
     (case cache key of
        Some (Some cloud_pairs) \<Rightarrow> entries @ tested rest cache
      | _ \<Rightarrow> tested rest cache)"


text \<open>
  What holds of \<^verbatim>\<open>dc_transitions_by_issue\<close> and \<^verbatim>\<open>dc_issue_id_map\<close> throughout
  the first loop: keys are unique, and the id stored for a key is that of its first
  entry.
\<close>

definition dc_state_ok :: "transitions \<times> (string \<rightharpoonup> string) \<Rightarrow> bool" where
  "dc_state_ok st \<longleftrightarrow>
     distinct (map fst (fst st)) \<and>
     (\<forall>k. get_or_empty (snd st) k = source_id (entries_of (fst st) k)) \<and>
     (\<forall>k. snd st k = None \<longleftrightarrow> entries_of (fst st) k = [])"


section \<open>Example endpoints and systems\<close>

text \<open>An endpoint that gives the same response at every attempt, and one that is unreachable.\<close>

definition always :: "int \<Rightarrow> 'a \<Rightarrow> 'a endpoint" where
  "always code body = (\<lambda>attempt. Responded \<lparr>status_code = code, json = body\<rparr>)"

definition unreachable :: "'a endpoint" where
  "unreachable = (\<lambda>attempt. TransportFailure)"

text \<open>An endpoint that fails in transport, then answers 503, then 429.\<close>

definition flaky :: "unit endpoint" where
  "flaky attempt =
     (if attempt = 1 then TransportFailure
      else Responded \<lparr>status_code = (if attempt = 2 then 503 else 429), json = ()\<rparr>)"

text \<open>Two systems in which no project, issue or changelog exists: every request gets a 404.\<close>

definition empty_systems :: world where
  "empty_systems =
     \<lparr>dc_project_api = (\<lambda>ver. always 404 []),
      dc_search_api = (\<lambda>jql start_at max_results. always 404 \<lparr>sp_issues = None, sp_total = None\<rparr>),
      dc_issue_api = (\<lambda>ver issue_key. always 404 \<lparr>di_id = None, di_histories = []\<rparr>),
      cloud_project_api = (\<lambda>identifier. always 404 ()),
      cloud_changelog_api = (\<lambda>issue_key start_at max_results.
         always 404 \<lparr>cl_values = None, cl_histories = None, cl_total = None, cl_isLast = None\<rparr>),
      cloud_issue_api = (\<lambda>issue_key. always 404 \<lparr>ci_id = None\<rparr>)\<rparr>"

text \<open>A target system that knows project 10010 by its id only.\<close>

definition id_only_cloud :: world where
  "id_only_cloud =
     empty_systems\<lparr>cloud_project_api :=
       (\<lambda>identifier. if identifier = ''10010'' then always 200 () else always 404 ())\<rparr>"

text \<open>
  A source system whose project list differs between the two API versions, both
  answering 200.
\<close>

definition two_lists :: world where
  "two_lists =
     empty_systems\<lparr>dc_project_api :=
       (\<lambda>ver. if ver = ''2''
          then always 200 [\<lparr>pj_key = Some ''OLD'', pj_id = Some ''1'', pj_name = None\<rparr>,
                           \<lparr>pj_key = Some ''NOID'', pj_id = None, pj_name = Some ''dropped''\<rparr>]
          else always 200 [\<lparr>pj_key = Some ''NEW'', pj_id = Some ''2'', pj_name = Some ''New''\<rparr>])\<rparr>"

text \<open>
  A status item of the target system with the given names and ids, and a history
  entry of the target system by a named author.
\<close>

definition status_item :: "string \<Rightarrow> string \<Rightarrow> string \<Rightarrow> string \<Rightarrow> item" where
  "status_item f fid t tid =
     \<lparr>field = Some ''status'', fromString = Some f, from_id = Some fid,
      toString = Some t, to_id = Some tid\<rparr>"

definition history_of :: "string \<Rightarrow> string \<Rightarrow> item list \<Rightarrow> history" where
  "history_of who hid its =
     \<lparr>h_author = Some \<lparr>displayName = Some who, login_name = None, emailAddress = None\<rparr>,
      h_created = Some ''2024-01-01T00:00:00'', h_id = Some hid, h_items = its\<rparr>"

text \<open>
  A target changelog served without \<^verbatim>\<open>total\<close> and without \<^verbatim>\<open>isLast\<close>: the
  first page holds one history, and the server has a second one at offset 1.
\<close>

definition unflagged_cloud :: world where
  "unflagged_cloud =
     empty_systems\<lparr>cloud_changelog_api :=
       (\<lambda>issue_key start_at max_results.
          always 200 \<lparr>cl_values = Some
              (if start_at = 0 then [history_of ''Alice'' ''1'' [status_item ''Open'' ''1'' ''Done'' ''5'']]
               else if start_at = 1 then [history_of ''Bob'' ''2'' [status_item ''Done'' ''5'' ''Open'' ''1'']]
               else []),
            cl_histories = None, cl_total = None, cl_isLast = None\<rparr>)\<rparr>"

text \<open>
  A target changelog whose every page is empty while \<^verbatim>\<open>total\<close> says one entry
  exists.
\<close>

definition stuck_cloud :: world where
  "stuck_cloud =
     empty_systems\<lparr>cloud_changelog_api :=
       (\<lambda>issue_key start_at max_results.
          always 200 \<lparr>cl_values = Some [], cl_histories = None, cl_total = Some 1,
                      cl_isLast = None\<rparr>)\<rparr>"

text \<open>
  A source feed that serves the keys \<open>all_keys\<close> in pages of at most
  \<^verbatim>\<open>maxResults\<close> from \<^verbatim>\<open>startAt\<close>, reporting their number as \<^verbatim>\<open>total\<close>.
\<close>

definition paged_feed :: "string list \<Rightarrow> search_query \<Rightarrow> nat \<Rightarrow> int \<Rightarrow> search_payload endpoint" where
  "paged_feed all_keys jql start_at max_results =
     always 200 \<lparr>sp_issues = Some (take (nat max_results) (drop start_at all_keys)),
                 sp_total = Some (int (length all_keys))\<rparr>"

definition five_keys :: "string list" where
  "five_keys = [''ABC-1'', ''ABC-2'', ''ABC-3'', ''ABC-4'', ''ABC-5'']"

text \<open>The same for the source system.\<close>

definition dc_status_item :: "string \<Rightarrow> string \<Rightarrow> string \<Rightarrow> string \<Rightarrow> dc_item" where
  "dc_status_item f fid t tid =
     \<lparr>dc_field = Some ''status'', dc_fromString = Name f, dc_from = Some fid,
      dc_toString = Name t, dc_to = Some tid\<rparr>"

definition dc_history_of :: "string \<Rightarrow> string \<Rightarrow> dc_item list \<Rightarrow> dc_history" where
  "dc_history_of who hid its =
     \<lparr>dc_author = Some \<lparr>displayName = Some who, login_name = None, emailAddress = None\<rparr>,
      dc_created = Some ''2024-01-01T00:00:00'', dc_history_id = Some hid, dc_items = its\<rparr>"

text \<open>
  A project ABC (id 10010) present on both systems, with four issues. ABC-1 moved
  Open to InProgress on the source, and the target recorded Open to Done. ABC-2 and
  ABC-3 moved Open to Done on the source; the target's changelog of ABC-2 answers 404,
  and for ABC-3 the changelog is empty and the issue itself answers 404. The source
  cannot deliver ABC-4: version 2 answers 500 and version 3 is unreachable. A second
  project OPS (id 10030) is present on the target too, and the source's issue search
  for it answers 500.
\<close>

definition audit_keys :: "string list" where
  "audit_keys = [''ABC-1'', ''ABC-2'', ''ABC-3'', ''ABC-4'']"

definition audit_world :: world where
  "audit_world =
     \<lparr>dc_project_api = (\<lambda>ver. always 200
         [\<lparr>pj_key = Some ''ABC'', pj_id = Some ''10010'', pj_name = Some ''Alphabet''\<rparr>]),
      dc_search_api = (\<lambda>jql.
         if q_project_id jql = ''10010'' then paged_feed audit_keys jql
         else (\<lambda>start_at max_results. always 500 \<lparr>sp_issues = None, sp_total = None\<rparr>)),
      dc_issue_api = (\<lambda>ver issue_key.
         if ver = ''2'' then
           if issue_key = ''ABC-1'' then
             always 200 \<lparr>di_id = Some ''501'', di_histories =
               [dc_history_of ''Alice'' ''100''
                  [\<lparr>dc_field = Some ''assignee'', dc_fromString = Name ''Bob'', dc_from = None,
                    dc_toString = Name ''Alice'', dc_to = None\<rparr>,
                   dc_status_item ''Open'' ''1'' ''InProgress'' ''3'',
                   \<lparr>dc_field = Some ''status'', dc_fromString = NoName, dc_from = None,
                    dc_toString = Name ''Open'', dc_to = Some ''1''\<rparr>]]\<rparr>
           else if issue_key = ''ABC-2'' \<or> issue_key = ''ABC-3'' then
             always 200 \<lparr>di_id = Some ''502'', di_histories =
               [dc_history_of ''Carol'' ''200'' [dc_status_item ''Open'' ''1'' ''Done'' ''5'']]\<rparr>
           else always 500 \<lparr>di_id = None, di_histories = []\<rparr>
         else unreachable),
      cloud_project_api = (\<lambda>identifier.
         if identifier = ''ABC'' \<or> identifier = ''OPS'' then always 200 () else always 404 ()),
      cloud_changelog_api = (\<lambda>issue_key start_at max_results.
         if issue_key = ''ABC-1'' then
           always 200 \<lparr>cl_values = Some
               (if start_at = 0 then [history_of ''Alice'' ''7'' [status_item ''Open'' ''1'' ''Done'' ''5'']]
                else []),
             cl_histories = None, cl_total = Some 1, cl_isLast = None\<rparr>
         else if issue_key = ''ABC-3'' then
           always 200 \<lparr>cl_values = None, cl_histories = Some [], cl_total = Some 0,
                       cl_isLast = None\<rparr>
         else always 404 \<lparr>cl_values = None, cl_histories = None, cl_total = None,
                          cl_isLast = None\<rparr>),
      cloud_issue_api = (\<lambda>issue_key.
         if issue_key = ''ABC-1'' then always 200 \<lparr>ci_id = Some ''20001''\<rparr>
         else always 404 \<lparr>ci_id = None\<rparr>)\<rparr>"

text \<open>The event of ABC-1 and the row reporting it.\<close>

definition audit_event :: event where
  "audit_event =
     \<lparr>ev_issueKey = ''ABC-1'', ev_dcIssueId = ''501'',
      ev_from_name = Name ''Open'', ev_from_id = Some ''1'',
      ev_to_name = Name ''InProgress'', ev_to_id = Some ''3'',
      ev_author = ''Alice'', ev_timestamp = ''2024-01-01T00:00:00'',
      ev_changegroup_Id = ''100'', ev_changeitem_Id = ''100''\<rparr>"

definition audit_row :: drift_row where
  "audit_row =
     \<lparr>issueKey = ''ABC-1'', dc_issue_id = ''501'', cloud_issue_id = ''20001'',
      transition = ''Open '' @ arrow @ '' InProgress'',
      from_status = ''Open (1)'', to_status = ''InProgress (3)'',
      author = ''Alice'', timestamp = ''2024-01-01T00:00:00'',
      changegroup_Id = ''100'', changeitem_Id = ''100''\<rparr>"






text \<open>
  A source system that lists the given projects, over a target system that has none
  of them.
\<close>

definition listing_world :: "project_json list \<Rightarrow> world" where
  "listing_world projects = empty_systems\<lparr>dc_project_api := (\<lambda>ver. always 200 projects)\<rparr>"

definition listed :: "string \<Rightarrow> string \<Rightarrow> project_json" where
  "listed k i = \<lparr>pj_key = Some k, pj_id = Some i, pj_name = None\<rparr>"

text \<open>Two projects whose keys differ in case only, and three with unrelated keys.\<close>

definition case_twins :: world where
  "case_twins = listing_world [listed ''ab'' ''1'', listed ''AB'' ''2'']"

definition three_projects :: world where
  "three_projects = listing_world [listed ''ONE'' ''1'', listed ''two'' ''2'', listed ''THREE'' ''3'']"

text \<open>
  The systems of project ABC with the target's changelog of ABC-2 stuck: every page is
  empty while \<^verbatim>\<open>total\<close> is 1.
\<close>

definition hang_world :: world where
  "hang_world =
     audit_world\<lparr>cloud_changelog_api :=
       (\<lambda>issue_key start_at max_results.
          if issue_key = ''ABC-2'' then
            always 200 \<lparr>cl_values = Some [], cl_histories = None, cl_total = Some 1,
                        cl_isLast = None\<rparr>
          else cloud_changelog_api audit_world issue_key start_at max_results)\<rparr>"

text \<open>The systems of project ABC with a search that lists ABC-1 twice.\<close>

definition twice_world :: world where
  "twice_world = audit_world\<lparr>dc_search_api := (\<lambda>jql. paged_feed [''ABC-1'', ''ABC-1''] jql)\<rparr>"

section \<open>The retry policy\<close>

lemma request_attempts_stop:
  assumes "attempt \<le> max_retries" "attempt = max_retries \<or> \<not> retryable (srv attempt)"
  shows "request_attempts srv max_retries backoff_factor attempt le lr sleeps =
           (attempt_result (srv attempt), sleeps)"
  using assms
  by (subst request_attempts.simps)
     (auto simp: retry_status_def split: outcome.splits)

lemma request_attempts_retry:
  assumes "attempt < max_retries" "retryable (srv attempt)" "0 \<le> backoff_factor * attempt"
  shows "\<exists>le' lr'. request_attempts srv max_retries backoff_factor attempt le lr sleeps =
           request_attempts srv max_retries backoff_factor (attempt + 1) le' lr'
             (sleeps @ [backoff_factor * attempt])"
  using assms
  by (subst request_attempts.simps)
     (auto simp: retry_status_def split: outcome.splits)

lemma request_attempts_run:
  assumes "0 \<le> backoff_factor" "1 \<le> attempt" "attempt \<le> k" "k \<le> max_retries"
    and "\<forall>a. attempt \<le> a \<and> a < k \<longrightarrow> retryable (srv a)"
    and "k = max_retries \<or> \<not> retryable (srv k)"
  shows "request_attempts srv max_retries backoff_factor attempt le lr sleeps =
           (attempt_result (srv k), sleeps @ map (\<lambda>a. backoff_factor * a) [attempt..k - 1])"
  using assms
proof (induction "nat (k - attempt)" arbitrary: attempt le lr sleeps)
  case 0
  then have "attempt = k" by simp
  with 0 show ?case by (simp add: request_attempts_stop)
next
  case (Suc n)
  then have lt: "attempt < k" by simp
  with Suc.prems have r: "retryable (srv attempt)" and lt': "attempt < max_retries" by auto
  from Suc.prems have nn: "0 \<le> backoff_factor * attempt" by simp
  from request_attempts_retry[of attempt max_retries srv backoff_factor le lr sleeps, OF lt' r nn]
  obtain le' lr' where
    step: "request_attempts srv max_retries backoff_factor attempt le lr sleeps =
           request_attempts srv max_retries backoff_factor (attempt + 1) le' lr'
             (sleeps @ [backoff_factor * attempt])" by blast
  have "request_attempts srv max_retries backoff_factor (attempt + 1) le' lr'
             (sleeps @ [backoff_factor * attempt]) =
        (attempt_result (srv k), (sleeps @ [backoff_factor * attempt]) @
            map (\<lambda>a. backoff_factor * a) [attempt + 1..k - 1])"
    using Suc.hyps(2) Suc.prems lt
    by (intro Suc.hyps(1)) auto
  moreover have "[attempt..k - 1] = attempt # [attempt + 1..k - 1]"
    using lt by (simp add: upto_rec1)
  ultimately show ?case using step by simp
qed

lemma request_with_retries_default:
  "\<exists>k\<in>{1, 2, 3}. fst (request_with_retries srv default_max_retries default_backoff_factor) =
      attempt_result (srv k)"
proof -
  consider (a) "\<not> retryable (srv 1)"
    | (b) "retryable (srv 1)" "\<not> retryable (srv 2)"
    | (c) "retryable (srv 1)" "retryable (srv 2)"
    by blast
  then show ?thesis
  proof cases
    case a
    then show ?thesis
      using request_attempts_stop[of 1 3 srv 2 None None "[]"]
      by (simp add: request_with_retries_def default_max_retries_def default_backoff_factor_def)
  next
    case b
    have "\<forall>a. 1 \<le> a \<and> a < 2 \<longrightarrow> retryable (srv a)"
    proof (intro allI impI)
      fix a :: int assume "1 \<le> a \<and> a < 2"
      then have "a = 1" by simp
      with b show "retryable (srv a)" by simp
    qed
    then show ?thesis
      using b request_attempts_run[of 2 1 2 3 srv None None "[]"]
      by (simp add: request_with_retries_def default_max_retries_def default_backoff_factor_def)
  next
    case c
    have "\<forall>a. 1 \<le> a \<and> a < 3 \<longrightarrow> retryable (srv a)"
    proof (intro allI impI)
      fix a :: int assume "1 \<le> a \<and> a < 3"
      then have "a = 1 \<or> a = 2" by auto
      with c show "retryable (srv a)" by auto
    qed
    then show ?thesis
      using c request_attempts_run[of 2 1 3 3 srv None None "[]"]
      by (simp add: request_with_retries_def default_max_retries_def default_backoff_factor_def)
  qed
qed

lemma http_get_cases:
  "http_get srv = Inl RequestException \<or> (\<exists>resp. http_get srv = Inr resp)"
proof -
  from request_with_retries_default[of srv] obtain k where
    "fst (request_with_retries srv default_max_retries default_backoff_factor) =
      attempt_result (srv k)" by blast
  then show ?thesis
    by (cases "srv k") (simp_all add: http_get_def)
qed

lemma http_get_always [simp]:
  "http_get (always code body) = Inr \<lparr>status_code = code, json = body\<rparr>"
proof -
  from request_with_retries_default[of "always code body"] obtain k where
    "fst (request_with_retries (always code body) default_max_retries default_backoff_factor) =
      attempt_result (always code body k)" by blast
  then show ?thesis by (simp add: http_get_def always_def)
qed

lemma http_get_unreachable [simp]: "http_get unreachable = Inl RequestException"
proof -
  from request_with_retries_default[of "unreachable :: 'a endpoint"] obtain k where
    "fst (request_with_retries (unreachable :: 'a endpoint) default_max_retries default_backoff_factor) =
      attempt_result ((unreachable :: 'a endpoint) k)" by blast
  then show ?thesis by (simp add: http_get_def unreachable_def)
qed

lemma cloud_get_cases:
  "cloud_get srv = Inl RequestException \<or> (\<exists>resp. cloud_get srv = Inr resp)"
  by (simp add: cloud_get_def http_get_cases)

lemma dc_get_cases:
  "dc_get srv = Inl RequestException \<or> (\<exists>resp. dc_get srv = Inr resp)"
  by (simp add: dc_get_def http_get_cases)

text \<open>
  C5. Let attempt \<open>k\<close> (from 1, at most \<open>max_retries\<close>) be the first that is neither a
  transport failure nor a 429/5xx response, or the last attempt allowed when every
  attempt is one. Then \<open>_request_with_retries\<close> makes exactly the attempts \<open>1..k\<close>,
  sleeps \<open>backoff_factor * a\<close> after each attempt \<open>a < k\<close> (linear in the attempt
  number), and ends with attempt \<open>k\<close>: a response, also a failing one at the ceiling,
  is returned, a transport failure at the ceiling is raised. The defaults are 3
  attempts and factor 2.
\<close>

theorem request_with_retries_policy:
  assumes "0 \<le> backoff_factor" "1 \<le> k" "k \<le> max_retries"
    and "\<forall>a. 1 \<le> a \<and> a < k \<longrightarrow> retryable (srv a)"
    and "k = max_retries \<or> \<not> retryable (srv k)"
  shows "request_with_retries srv max_retries backoff_factor =
           (attempt_result (srv k), map (\<lambda>a. backoff_factor * a) [1..k - 1])
         \<and> request_with_retries srv default_max_retries default_backoff_factor =
             request_with_retries srv 3 2"
  using request_attempts_run[of backoff_factor 1 k max_retries srv None None "[]"] assms
  by (simp add: request_with_retries_def default_max_retries_def default_backoff_factor_def)

theorem request_with_retries_policy_witness:
  "request_with_retries flaky 3 2 = (Inr (Some \<lparr>status_code = 429, json = ()\<rparr>), [2, 4])
   \<and> request_with_retries (unreachable :: unit endpoint) 3 2 = (Inl RequestException, [2, 4])
   \<and> request_with_retries (always 404 ()) 3 2 = (Inr (Some \<lparr>status_code = 404, json = ()\<rparr>), [])"
  using request_with_retries_policy[of 2 3 3 flaky]
    request_with_retries_policy[of 2 3 3 "unreachable :: unit endpoint"]
    request_with_retries_policy[of 2 1 3 "always 404 ()"]
  by (simp add: flaky_def unreachable_def always_def retry_status_def upto_rec1)

section \<open>Project presence on the target system\<close>

lemma cloud_project_exists_cases:
  "cloud_project_exists w project_key project_id =
     Inr (case cloud_get (cloud_project_api w project_key) of
            Inl e \<Rightarrow> False
          | Inr r1 \<Rightarrow>
              if status_code r1 = 200 then True
              else if status_code r1 = 404 then
                (case cloud_get (cloud_project_api w project_id) of
                   Inl e \<Rightarrow> False
                 | Inr r2 \<Rightarrow> status_code r2 = 200)
              else False)"
  using cloud_get_cases[of "cloud_project_api w project_key"]
    cloud_get_cases[of "cloud_project_api w project_id"]
  by (auto simp: cloud_project_exists_def)

lemma process_project_absent:
  "cloud_project_exists w project_key project_id = Inr False \<Longrightarrow>
   process_project w project_key project_id days = Some []"
  by (simp add: process_project_def process_project_body_def)

lemmas world_simps = empty_systems_def id_only_cloud_def cloud_get_def dc_get_def

text \<open>
  C6. \<open>cloud_project_exists\<close> never raises and answers true exactly when the lookup by
  key returns 200, or the lookup by key returns 404 and the lookup by id returns 200.
  A 404 on the key leads to the lookup by id; any other status and any transport
  exception, on either lookup, give false. When the answer is false,
  \<open>process_project\<close> writes a report with no rows and the run goes on with the next
  project.
\<close>

theorem cloud_project_exists_key_then_id:
  "cloud_project_exists w project_key project_id =
     Inr (case cloud_get (cloud_project_api w project_key) of
            Inl e \<Rightarrow> False
          | Inr r1 \<Rightarrow>
              if status_code r1 = 200 then True
              else if status_code r1 = 404 then
                (case cloud_get (cloud_project_api w project_id) of
                   Inl e \<Rightarrow> False
                 | Inr r2 \<Rightarrow> status_code r2 = 200)
              else False)
   \<and> (cloud_project_exists w project_key project_id = Inr False \<longrightarrow>
        process_project w project_key project_id days = Some []
        \<and> run_projects w days (\<lparr>p_key = project_key, p_id = project_id, p_name = n\<rparr> # ps) =
            map_option (\<lambda>reports. (project_key, []) # reports) (run_projects w days ps))"
  using cloud_project_exists_cases[of w project_key project_id]
    process_project_absent[of w project_key project_id days]
  by (auto simp: map_option_case split: option.splits)

theorem cloud_project_exists_key_then_id_witness:
  "cloud_project_exists id_only_cloud ''EMPLOY'' ''10010'' = Inr True
   \<and> cloud_project_exists empty_systems ''EMPLOY'' ''10010'' = Inr False
   \<and> process_project empty_systems ''EMPLOY'' ''10010'' None = Some []
   \<and> run_projects empty_systems None
        [\<lparr>p_key = ''EMPLOY'', p_id = ''10010'', p_name = ''Employees''\<rparr>] = Some [(''EMPLOY'', [])]"
  using cloud_project_exists_key_then_id[of id_only_cloud "''EMPLOY''" "''10010''" None "''Employees''" "[]"]
    cloud_project_exists_key_then_id[of empty_systems "''EMPLOY''" "''10010''" None "''Employees''" "[]"]
  by (simp add: world_simps)

section \<open>Project discovery\<close>

lemma parse_projects_filter:
  "parse_projects projects =
     map project_of (filter (\<lambda>p. truthy (pj_key p) \<and> truthy (pj_id p)) projects)"
proof (induction projects)
  case Nil
  show ?case by (simp add: parse_projects_def)
next
  case (Cons p ps)
  then show ?case
    by (cases "pj_key p"; cases "pj_id p"; cases "pj_name p")
       (auto simp: parse_projects_def parse_project_def project_of_def)
qed

lemma main_aborts: "dc_list_projects w = Inl e \<Longrightarrow> main w a = Some (Inl e)"
  by (simp add: main_def)

text \<open>
  C7, as the code has it. \<open>dc_list_projects\<close> tries version 2 and then version 3,
  oldest first. A request that raises after its retries ends the function with that
  exception, without trying the next version. Otherwise the first version answering
  200 wins and its body is parsed, keeping exactly the entries that have a key and an
  id; when neither answers 200 the function raises \<open>RuntimeError\<close>. Either exception
  ends \<open>main\<close> before any project is processed.
\<close>

theorem dc_list_projects_oldest_first:
  "dc_list_projects w =
     (case dc_get (dc_project_api w ''2'') of
        Inl e \<Rightarrow> Inl e
      | Inr r2 \<Rightarrow>
          if status_code r2 = 200 then
            Inr (map project_of (filter (\<lambda>p. truthy (pj_key p) \<and> truthy (pj_id p)) (json r2)))
          else
            (case dc_get (dc_project_api w ''3'') of
               Inl e \<Rightarrow> Inl e
             | Inr r3 \<Rightarrow>
                 if status_code r3 = 200 then
                   Inr (map project_of (filter (\<lambda>p. truthy (pj_key p) \<and> truthy (pj_id p)) (json r3)))
                 else Inl RuntimeError))
   \<and> (\<forall>e. dc_list_projects w = Inl e \<longrightarrow> main w a = Some (Inl e))"
  using main_aborts[of w _ a]
  by (auto simp: dc_list_projects_def parse_projects_filter split: sum.splits)

theorem dc_list_projects_oldest_first_witness:
  "dc_list_projects two_lists = Inr [\<lparr>p_key = ''OLD'', p_id = ''1'', p_name = ''OLD''\<rparr>]
   \<and> dc_list_projects empty_systems = Inl RuntimeError
   \<and> main empty_systems \<lparr>only = None, resume_from = None, updated_since_days = None\<rparr> =
       Some (Inl RuntimeError)"
  using dc_list_projects_oldest_first[of two_lists]
    dc_list_projects_oldest_first[of empty_systems
      "\<lparr>only = None, resume_from = None, updated_since_days = None\<rparr>"]
  by (simp add: empty_systems_def two_lists_def dc_get_def project_of_def)

text \<open>
  C7 as the specification words it fails: where both versions answer 200 with
  different lists, the code returns the list of version 2, and trying the newest
  version first would return the list of version 3.
\<close>

theorem dc_list_projects_newest_first_counterexample:
  "dc_list_projects two_lists \<noteq> dc_list_projects_newest_first two_lists"
  by (simp add: dc_list_projects_def dc_list_projects_newest_first_def two_lists_def
      empty_systems_def dc_get_def parse_projects_filter project_of_def)

section \<open>Pagination of the target changelog\<close>

lemma cloud_fetch_loop_unflagged:
  assumes "cloud_get (cloud_changelog_api w issue_key start_at 100) = Inr resp"
    and "status_code resp = 200"
    and "cl_total (json resp) = None" "cl_isLast (json resp) = None"
  shows "cloud_fetch_loop w issue_key start_at pairs =
           Some (Inr (pairs \<union> status_pairs_of (page_histories (json resp))))"
  using assms by (subst cloud_fetch_loop.simps) (simp add: Let_def)

text \<open>
  C10. When a changelog page answers 200 with neither \<^verbatim>\<open>total\<close> nor
  \<^verbatim>\<open>isLast\<close>, the loop of \<open>cloud_fetch_status_pairs\<close> adds the pairs of that page
  and returns, whether or not the page is empty and whatever the server holds at
  later offsets.
\<close>

theorem cloud_fetch_no_total_no_isLast:
  assumes "cloud_get (cloud_changelog_api w issue_key start_at 100) = Inr resp"
    and "status_code resp = 200"
    and "cl_total (json resp) = None" "cl_isLast (json resp) = None"
  shows "cloud_fetch_loop w issue_key start_at pairs =
           Some (Inr (pairs \<union> status_pairs_of (page_histories (json resp))))
         \<and> (start_at = 0 \<longrightarrow>
              cloud_fetch_status_pairs w issue_key =
                Some (Inr (status_pairs_of (page_histories (json resp)))))"
  using cloud_fetch_loop_unflagged[OF assms]
    cloud_fetch_loop_unflagged[OF assms, of "{}"]
  by (auto simp: cloud_fetch_status_pairs_def)

theorem cloud_fetch_no_total_no_isLast_witness:
  "page_histories (json (\<lparr>status_code = 200, json = \<lparr>cl_values = Some
       [history_of ''Alice'' ''1'' [status_item ''Open'' ''1'' ''Done'' ''5'']],
       cl_histories = None, cl_total = None, cl_isLast = None\<rparr>\<rparr>)) \<noteq> []
   \<and> cloud_fetch_status_pairs unflagged_cloud ''ABC-1'' = Some (Inr {(Some ''Open'', Some ''Done'')})"
  using cloud_fetch_no_total_no_isLast[of unflagged_cloud "''ABC-1''" 0
      "\<lparr>status_code = 200, json = \<lparr>cl_values = Some
       [history_of ''Alice'' ''1'' [status_item ''Open'' ''1'' ''Done'' ''5'']],
       cl_histories = None, cl_total = None, cl_isLast = None\<rparr>\<rparr>" "{}"]
  by (simp add: unflagged_cloud_def empty_systems_def cloud_get_def page_histories_def
      status_pairs_of_def history_of_def status_item_def)

lemma cloud_fetch_loop_stuck:
  "cloud_fetch_loop w issue_key start_at pairs = Some y \<Longrightarrow> w = stuck_cloud \<Longrightarrow> start_at = 0 \<Longrightarrow> False"
proof (induction w issue_key start_at pairs y rule: cloud_fetch_loop.raw_induct[rotated 1, consumes 1])
  case (1 f w issue_key start_at pairs y)
  then show ?case
    by (auto simp: stuck_cloud_def empty_systems_def cloud_get_def page_histories_def)
qed

text \<open>
  C4 fails on the code. With \<^verbatim>\<open>total\<close> present the loop ends only when the
  offset reaches it; the empty-page test is in the other branch. A server whose pages
  are empty while \<^verbatim>\<open>total\<close> is 1 keeps the offset at 0, and
  \<open>cloud_fetch_status_pairs\<close> does not return.
\<close>

theorem cloud_fetch_status_pairs_stuck:
  "cloud_fetch_status_pairs stuck_cloud ''ABC-1'' = None"
  using cloud_fetch_loop_stuck[of stuck_cloud "''ABC-1''" 0 "{}"]
  by (cases "cloud_fetch_status_pairs stuck_cloud ''ABC-1''")
     (auto simp: cloud_fetch_status_pairs_def)


section \<open>Pagination of the source issue search\<close>


lemma take_drop_own_length: "take n xs @ drop (length (take n xs)) xs = xs"
proof (cases "n \<le> length xs")
  case True
  then have "length (take n xs) = n" by simp
  then show ?thesis by (simp del: length_take)
next
  case False
  then have "take n xs = xs" by simp
  then show ?thesis by (simp del: length_take)
qed

lemma dc_search_loop_step:
  assumes "dc_get (dc_search_api w jql start_at page_size) = Inr resp"
    and "status_code resp = 200"
    and "sp_issues (json resp) = Some page" "sp_total (json resp) = Some t"
  shows "dc_search_loop w jql page_size start_at keys =
           (if page = [] then Some (Inr keys)
            else if t \<le> int (start_at + length page) then Some (Inr (keys @ page))
            else dc_search_loop w jql page_size (start_at + length page) (keys @ page))"
  by (subst dc_search_loop.simps) (simp add: assms Let_def)

lemma dc_get_paged_feed:
  "dc_get (paged_feed ks jql start_at page_size) =
     Inr \<lparr>status_code = 200,
          json = \<lparr>sp_issues = Some (take (nat page_size) (drop start_at ks)),
                  sp_total = Some (int (length ks))\<rparr>\<rparr>"
  by (simp add: paged_feed_def dc_get_def)

lemma dc_search_loop_paged:
  assumes feed: "dc_search_api w jql = paged_feed ks jql" and pos: "0 < page_size"
    and le: "start_at \<le> length ks"
  shows "dc_search_loop w jql page_size start_at keys = Some (Inr (keys @ drop start_at ks))"
  using le
proof (induction "length ks - start_at" arbitrary: start_at keys rule: less_induct)
  case less
  define page where "page = take (nat page_size) (drop start_at ks)"
  have split: "page @ drop (start_at + length page) ks = drop start_at ks"
    using take_drop_own_length[of "nat page_size" "drop start_at ks"]
    by (simp add: page_def add.commute del: length_take)
  have resp: "dc_get (dc_search_api w jql start_at page_size) =
      Inr \<lparr>status_code = 200,
           json = \<lparr>sp_issues = Some page, sp_total = Some (int (length ks))\<rparr>\<rparr>"
    unfolding feed page_def by (rule dc_get_paged_feed)
  have step: "dc_search_loop w jql page_size start_at keys =
           (if page = [] then Some (Inr keys)
            else if int (length ks) \<le> int (start_at + length page) then Some (Inr (keys @ page))
            else dc_search_loop w jql page_size (start_at + length page) (keys @ page))"
    by (rule dc_search_loop_step[OF resp]) simp_all
  show ?case
  proof (cases "page = []")
    case True
    with pos have "drop start_at ks = []" by (simp add: page_def)
    with True step show ?thesis by simp
  next
    case ne: False
    show ?thesis
    proof (cases "length ks \<le> start_at + length page")
      case True
      then have "drop (start_at + length page) ks = []" by simp
      with split have "page = drop start_at ks" by simp
      with ne True step show ?thesis by simp
    next
      case False
      then have le': "start_at + length page \<le> length ks" by simp
      from ne have "0 < length page" by simp
      with False have "length ks - (start_at + length page) < length ks - start_at" by linarith
      from less.hyps[OF this le']
      have "dc_search_loop w jql page_size (start_at + length page) (keys @ page) =
            Some (Inr ((keys @ page) @ drop (start_at + length page) ks))" .
      with split ne False step show ?thesis by simp
    qed
  qed
qed

text \<open>
  C8. Against a source feed that serves the keys \<open>ks\<close> by offset and page size and
  reports their number as \<^verbatim>\<open>total\<close>, \<open>dc_search_issue_keys_for_project\<close> with a
  positive page size returns, and returns exactly \<open>ks\<close>: as many keys as the total,
  without duplicates when the feed has none.
\<close>

theorem dc_search_pages_to_total:
  assumes "dc_search_api w = paged_feed ks" and "0 < page_size" and "distinct ks"
  shows "\<exists>keys. dc_search_issue_keys_for_project w project_id days page_size = Some (Inr keys)
           \<and> keys = ks \<and> distinct keys \<and> length keys = length ks"
proof -
  from assms(1) have "dc_search_api w (build_jql project_id days) =
      paged_feed ks (build_jql project_id days)" by simp
  from dc_search_loop_paged[OF this assms(2), of 0 "[]"] assms(3)
  show ?thesis by (simp add: dc_search_issue_keys_for_project_def)
qed

theorem dc_search_pages_to_total_witness:
  "\<exists>keys. dc_search_issue_keys_for_project (empty_systems\<lparr>dc_search_api := paged_feed five_keys\<rparr>)
       ''10010'' None 2 = Some (Inr keys)
     \<and> keys = [''ABC-1'', ''ABC-2'', ''ABC-3'', ''ABC-4'', ''ABC-5'']
     \<and> distinct keys \<and> length keys = 5"
  using dc_search_pages_to_total[of "empty_systems\<lparr>dc_search_api := paged_feed five_keys\<rparr>"
      five_keys 2 "''10010''" None]
  by (simp add: five_keys_def)

section \<open>The transitions collected from the source\<close>

lemma entries_of_Nil [simp]: "entries_of [] k = []"
  by (simp add: entries_of_def)

lemma entries_of_Cons [simp]:
  "entries_of ((k', vs) # d) k = (if k' = k then vs else entries_of d k)"
  by (simp add: entries_of_def)

lemma entries_of_absent: "k \<notin> fst ` set d \<Longrightarrow> entries_of d k = []"
  by (induction d) auto

lemma entries_of_dict_append:
  "entries_of (dict_append d k v) k' =
     (if k' = k then entries_of d k @ [v] else entries_of d k')"
  by (induction d k v rule: dict_append.induct) auto

lemma keys_dict_append:
  "map fst (dict_append d k v) =
     (if k \<in> fst ` set d then map fst d else map fst d @ [k])"
  by (induction d k v rule: dict_append.induct) auto

lemma distinct_dict_append:
  "distinct (map fst d) \<Longrightarrow> distinct (map fst (dict_append d k v))"
  by (simp add: keys_dict_append)

lemma record_changes_entries:
  "entries_of (fst (record_changes key changes st)) k =
     entries_of (fst st) k @
       (if k = key then
          filter (\<lambda>change. name_truthy (ev_from_name change) \<and> name_truthy (ev_to_name change))
            changes
        else [])"
proof (induction key changes st rule: record_changes.induct)
  case (1 key st)
  show ?case by simp
next
  case (2 key change changes by_issue id_map)
  then show ?case by (auto simp: entries_of_dict_append)
qed

lemma record_changes_ok:
  "dc_state_ok st \<Longrightarrow> dc_state_ok (record_changes key changes st)"
proof (induction key changes st rule: record_changes.induct)
  case (1 key st)
  then show ?case by simp
next
  case (2 key change changes by_issue id_map)
  show ?case
  proof (cases "name_truthy (ev_from_name change) \<and> name_truthy (ev_to_name change)")
    case False
    with 2 show ?thesis by auto
  next
    case True
    have "dc_state_ok (dict_append by_issue key change,
            if id_map key = None then id_map(key \<mapsto> ev_dcIssueId change) else id_map)"
      using "2.prems"
      unfolding dc_state_ok_def
      by (auto simp: distinct_dict_append entries_of_dict_append get_or_empty_def source_id_def
          split: list.splits option.splits)
    with True 2 show ?thesis by auto
  qed
qed

lemma dc_changelogs_entries:
  "entries_of (fst (dc_changelogs w keys st)) k =
     entries_of (fst st) k @ source_transitions w keys k"
proof (induction keys arbitrary: st)
  case Nil
  show ?case by (simp add: source_transitions_def)
next
  case (Cons key keys)
  show ?case
  proof (cases "dc_iter_status_changes w key")
    case (Inl e)
    with Cons show ?thesis
      by (auto simp: source_transitions_def valid_changes_def)
  next
    case (Inr changes)
    with Cons show ?thesis
      by (auto simp: source_transitions_def valid_changes_def record_changes_entries)
  qed
qed

lemma dc_changelogs_ok:
  "dc_state_ok st \<Longrightarrow> dc_state_ok (dc_changelogs w keys st)"
  by (induction keys arbitrary: st) (auto simp: record_changes_ok split: sum.splits)

lemma dc_state_ok_init: "dc_state_ok ([], Map.empty)"
  by (simp add: dc_state_ok_def get_or_empty_def source_id_def)

lemma keys_set_dict_append: "fst ` set (dict_append d k v) = insert k (fst ` set d)"
  by (induction d k v rule: dict_append.induct) auto

lemma record_changes_keys:
  "fst ` set (fst (record_changes key changes st)) \<subseteq> insert key (fst ` set (fst st))"
proof (induction key changes st rule: record_changes.induct)
  case (1 key st)
  show ?case by auto
next
  case (2 key change changes by_issue id_map)
  show ?case
  proof (cases "name_truthy (ev_from_name change) \<and> name_truthy (ev_to_name change)")
    case True
    let ?m = "if id_map key = None then id_map(key \<mapsto> ev_dcIssueId change) else id_map"
    from "2.IH"(1)[OF True]
    have "fst ` set (fst (record_changes key changes (dict_append by_issue key change, ?m)))
            \<subseteq> insert key (fst ` set (dict_append by_issue key change))" by simp
    also have "\<dots> = insert key (fst ` set by_issue)"
      by (simp add: keys_set_dict_append)
    finally show ?thesis using True by simp
  next
    case False
    with "2.IH"(2)[OF False] show ?thesis by auto
  qed
qed

lemma dc_changelogs_keys:
  "fst ` set (fst (dc_changelogs w keys st)) \<subseteq> fst ` set (fst st) \<union> set keys"
proof (induction keys arbitrary: st)
  case Nil
  show ?case by simp
next
  case (Cons key keys)
  show ?case
  proof (cases "dc_iter_status_changes w key")
    case (Inl e)
    with Cons[of st] show ?thesis by auto
  next
    case (Inr changes)
    with Cons[of "record_changes key changes st"] record_changes_keys[of key changes st]
    show ?thesis by auto
  qed
qed

lemma entries_of_member:
  "distinct (map fst d) \<Longrightarrow> (key, es) \<in> set d \<Longrightarrow> entries_of d key = es"
  by (simp add: entries_of_def)

lemma source_transitions_subset:
  "set (source_transitions w keys k) \<subseteq> set (valid_changes w k)"
  by (auto simp: source_transitions_def)

lemma filter_listed_once: "count_list xs k = 1 \<Longrightarrow> filter (\<lambda>x. x = k) xs = [k]"
proof (induction xs)
  case Nil
  then show ?case by simp
next
  case (Cons x xs)
  show ?case
  proof (cases "x = k")
    case True
    with Cons.prems have "count_list xs k = 0" by simp
    then have "k \<notin> set xs" by (simp add: count_list_0_iff)
    then have "filter (\<lambda>x. x = k) xs = []" by (auto simp: filter_empty_conv)
    with True show ?thesis by simp
  next
    case False
    with Cons show ?thesis by simp
  qed
qed

lemma source_transitions_once:
  "count_list keys k = 1 \<Longrightarrow> source_transitions w keys k = valid_changes w k"
  by (simp add: source_transitions_def filter_listed_once)

section \<open>The target-side cache\<close>

lemma cloud_changelogs_step:
  "cloud_changelogs w (key # keys) (cache, id_map) =
     (if cloud_fetch_status_pairs w key = None then None
      else cloud_changelogs w keys
             (cache(key \<mapsto> map_option fst (target_fetch w key)),
              id_map(key \<mapsto> (case target_fetch w key of None \<Rightarrow> [] | Some (pairs, cid) \<Rightarrow> cid))))"
  by (auto simp: target_fetch_def split: option.splits sum.splits)

lemma cloud_changelogs_result:
  assumes "cloud_changelogs w keys (cache, id_map) = Some (cache', id_map')"
  shows "cache' k =
           (if k \<in> set keys then Some (map_option fst (target_fetch w k)) else cache k)
         \<and> id_map' k =
           (if k \<in> set keys
            then Some (case target_fetch w k of None \<Rightarrow> [] | Some (pairs, cid) \<Rightarrow> cid)
            else id_map k)"
  using assms
proof (induction keys arbitrary: cache id_map)
  case Nil
  then show ?case by simp
next
  case (Cons key keys)
  from Cons.prems have
    rec: "cloud_changelogs w keys
             (cache(key \<mapsto> map_option fst (target_fetch w key)),
              id_map(key \<mapsto> (case target_fetch w key of None \<Rightarrow> [] | Some (pairs, cid) \<Rightarrow> cid)))
          = Some (cache', id_map')"
    by (simp add: cloud_changelogs_step del: cloud_changelogs.simps split: if_splits)
  from Cons.IH[OF rec] show ?case by auto
qed

lemma cloud_changelogs_None:
  "cloud_changelogs w keys st = None \<longleftrightarrow> (\<exists>x\<in>set keys. cloud_fetch_status_pairs w x = None)"
proof (induction keys arbitrary: st)
  case Nil
  show ?case by simp
next
  case (Cons key keys)
  obtain cache id_map where st: "st = (cache, id_map)" by (cases st)
  show ?case
    unfolding st cloud_changelogs_step
    using Cons by auto
qed

section \<open>The comparison\<close>

lemma issueKey_make_row [simp]: "issueKey (make_row key d c e) = key"
  by (simp add: make_row_def)

lemma filter_rows_of_key:
  "filter (\<lambda>r. issueKey r = k) (map (make_row key d c) es) =
     (if key = k then map (make_row key d c) es else [])"
  by (induction es) auto

lemma drift_rows_issue:
  assumes "distinct (map fst d)"
  shows "filter (\<lambda>r. issueKey r = k) (drift_rows d cache dc_ids cloud_ids) =
     (case cache k of
        Some (Some cloud_pairs) \<Rightarrow>
          map (make_row k (get_or_empty dc_ids k) (get_or_empty cloud_ids k))
            (filter (missing_in cloud_pairs) (entries_of d k))
      | _ \<Rightarrow> [])"
  using assms
proof (induction d cache dc_ids cloud_ids rule: drift_rows.induct)
  case (1 cache dc_ids cloud_ids)
  show ?case by (simp split: option.splits)
next
  case (2 key entries rest cache dc_ids cloud_ids)
  from "2.prems" have d: "distinct (map fst rest)" and nk: "key \<notin> fst ` set rest" by auto
  show ?case
  proof (cases "key = k")
    case True
    with nk have "entries_of rest k = []" by (simp add: entries_of_absent)
    with True 2 d show ?thesis
      by (auto simp: filter_rows_of_key split: option.splits)
  next
    case False
    with 2 d show ?thesis
      by (auto simp: filter_rows_of_key split: option.splits)
  qed
qed

lemma compare_entries_eq:
  "compare_entries key dc_id cloud_id cloud_pairs entries =
     (if \<exists>e\<in>set entries. unhashable e then Inl TypeError
      else Inr (map (make_row key dc_id cloud_id) (filter (missing_in cloud_pairs) entries)))"
proof (induction entries)
  case Nil
  show ?case by simp
next
  case (Cons entry entries)
  have err: "pair_of entry = Inl e \<Longrightarrow> e = TypeError" for e
    by (cases "ev_from_name entry"; cases "ev_to_name entry") (auto simp: pair_of_def)
  show ?case
  proof (cases "pair_of entry")
    case (Inl e)
    with err[of e] show ?thesis by (simp add: unhashable_def)
  next
    case (Inr pair)
    then have m: "missing_in cloud_pairs entry \<longleftrightarrow> pair \<notin> cloud_pairs"
      by (simp add: missing_in_def)
    from Inr have "\<not> unhashable entry" by (simp add: unhashable_def)
    with Cons Inr m show ?thesis by (auto simp: Let_def)
  qed
qed

lemma compare_transitions_eq:
  "compare_transitions d cache dc_ids cloud_ids =
     (if \<exists>e\<in>set (tested d cache). unhashable e then Inl TypeError
      else Inr (drift_rows d cache dc_ids cloud_ids))"
proof (induction d cache dc_ids cloud_ids rule: compare_transitions.induct)
  case (1 cache dc_ids cloud_ids)
  show ?case by simp
next
  case (2 key entries rest cache dc_ids cloud_ids)
  show ?case
  proof (cases "cache key")
    case None
    with 2 show ?thesis by simp
  next
    case (Some v)
    show ?thesis
    proof (cases v)
      case None
      with Some 2 show ?thesis by simp
    next
      case (Some cloud_pairs)
      with \<open>cache key = Some v\<close> 2 show ?thesis
        by (auto simp: compare_entries_eq)
    qed
  qed
qed

lemma compare_transitions_rows:
  "compare_transitions d cache dc_ids cloud_ids = Inr rows \<Longrightarrow>
   rows = drift_rows d cache dc_ids cloud_ids"
  by (simp add: compare_transitions_eq split: if_splits)

section \<open>The rows of one issue\<close>

lemma reconcile_issues_unfold:
  assumes "dc_changelogs w issue_keys ([], Map.empty) = (d, m)"
  shows "reconcile_issues w issue_keys =
     (if issue_keys = [] \<or> d = [] then Some (Inr [])
      else (case cloud_changelogs w (map fst d) (Map.empty, Map.empty) of
              None \<Rightarrow> None
            | Some (cache, cloud_ids) \<Rightarrow> Some (compare_transitions d cache m cloud_ids)))"
  using assms by (simp add: reconcile_issues_def Let_def)

lemma reconcile_issues_issue:
  assumes "reconcile_issues w issue_keys = Some (Inr rows)"
  shows "filter (\<lambda>r. issueKey r = k) rows =
     (case target_fetch w k of
        None \<Rightarrow> []
      | Some (pairs, cid) \<Rightarrow>
          map (make_row k (source_id (source_transitions w issue_keys k)) cid)
            (filter (missing_in pairs) (source_transitions w issue_keys k)))"
proof -
  obtain d m where dm: "dc_changelogs w issue_keys ([], Map.empty) = (d, m)"
    by (cases "dc_changelogs w issue_keys ([], Map.empty)")
  have ok: "dc_state_ok (d, m)"
    using dc_changelogs_ok[OF dc_state_ok_init, of w issue_keys] dm by simp
  have ent: "entries_of d k = source_transitions w issue_keys k"
    using dc_changelogs_entries[of w issue_keys "([], Map.empty)" k] dm by simp
  have sid: "get_or_empty m k = source_id (source_transitions w issue_keys k)"
    using ok ent by (simp add: dc_state_ok_def)
  show ?thesis
  proof (cases "issue_keys = [] \<or> d = []")
    case True
    then have "rows = []"
      using assms by (simp add: reconcile_issues_unfold[OF dm])
    moreover from True ent have "source_transitions w issue_keys k = []"
      by (auto simp: source_transitions_def)
    ultimately show ?thesis by (simp split: option.splits)
  next
    case False
    with assms obtain cache cloud_ids where
      cl: "cloud_changelogs w (map fst d) (Map.empty, Map.empty) = Some (cache, cloud_ids)"
      and "compare_transitions d cache m cloud_ids = Inr rows"
      by (auto simp: reconcile_issues_unfold[OF dm] split: option.splits)
    then have rows: "rows = drift_rows d cache m cloud_ids"
      by (simp add: compare_transitions_rows)
    from ok have dist: "distinct (map fst d)" by (simp add: dc_state_ok_def)
    note res = cloud_changelogs_result[OF cl, of k]
    show ?thesis
    proof (cases "k \<in> fst ` set d")
      case True
      with res have "cache k = Some (map_option fst (target_fetch w k))"
        and "get_or_empty cloud_ids k =
              (case target_fetch w k of None \<Rightarrow> [] | Some (pairs, cid) \<Rightarrow> cid)"
        by (simp_all add: get_or_empty_def)
      then show ?thesis
        unfolding rows drift_rows_issue[OF dist] ent sid
        by (auto split: option.splits)
    next
      case False
      with res have "cache k = None" by simp
      moreover from False have "entries_of d k = []" by (rule entries_of_absent)
      ultimately show ?thesis
        unfolding rows drift_rows_issue[OF dist]
        using ent by (simp split: option.splits)
    qed
  qed
qed

lemma process_project_rows:
  assumes "process_project w project_key project_id days = Some rows"
  shows "rows = [] \<or>
     (\<exists>issue_keys.
        cloud_project_exists w project_key project_id = Inr True \<and>
        dc_search_issue_keys_for_project w project_id days 100 = Some (Inr issue_keys) \<and>
        reconcile_issues w issue_keys = Some (Inr rows))"
  using assms
  by (auto simp: process_project_def process_project_body_def
      split: option.splits sum.splits bool.splits)

section \<open>The example project\<close>

lemma audit_pairs_1:
  "cloud_fetch_status_pairs audit_world ''ABC-1'' = Some (Inr {(Some ''Open'', Some ''Done'')})"
  unfolding cloud_fetch_status_pairs_def
  by (subst cloud_fetch_loop.simps)
     (simp add: audit_world_def cloud_get_def page_histories_def status_pairs_of_def
        history_of_def status_item_def del: set_filter)

lemma audit_pairs_2:
  "cloud_fetch_status_pairs audit_world ''ABC-2'' = Some (Inl RuntimeError)"
  unfolding cloud_fetch_status_pairs_def
  by (subst cloud_fetch_loop.simps) (simp add: audit_world_def cloud_get_def)

lemma audit_pairs_3:
  "cloud_fetch_status_pairs audit_world ''ABC-3'' = Some (Inr {})"
  unfolding cloud_fetch_status_pairs_def
  by (subst cloud_fetch_loop.simps)
     (simp add: audit_world_def cloud_get_def page_histories_def status_pairs_of_def)

lemma audit_ids:
  "cloud_get_issue_id audit_world ''ABC-1'' = Inr ''20001''"
  "cloud_get_issue_id audit_world ''ABC-2'' = Inl RuntimeError"
  "cloud_get_issue_id audit_world ''ABC-3'' = Inl RuntimeError"
  by (simp_all add: cloud_get_issue_id_def audit_world_def cloud_get_def)

lemma audit_changes:
  "dc_iter_status_changes audit_world ''ABC-1'' =
     Inr [audit_event,
          audit_event\<lparr>ev_from_name := NoName, ev_from_id := None,
                       ev_to_name := Name ''Open'', ev_to_id := Some ''1''\<rparr>]"
  "dc_iter_status_changes audit_world ''ABC-2'' =
     Inr [\<lparr>ev_issueKey = ''ABC-2'', ev_dcIssueId = ''502'',
           ev_from_name = Name ''Open'', ev_from_id = Some ''1'',
           ev_to_name = Name ''Done'', ev_to_id = Some ''5'',
           ev_author = ''Carol'', ev_timestamp = ''2024-01-01T00:00:00'',
           ev_changegroup_Id = ''200'', ev_changeitem_Id = ''200''\<rparr>]"
  "dc_iter_status_changes audit_world ''ABC-3'' =
     Inr [\<lparr>ev_issueKey = ''ABC-3'', ev_dcIssueId = ''502'',
           ev_from_name = Name ''Open'', ev_from_id = Some ''1'',
           ev_to_name = Name ''Done'', ev_to_id = Some ''5'',
           ev_author = ''Carol'', ev_timestamp = ''2024-01-01T00:00:00'',
           ev_changegroup_Id = ''200'', ev_changeitem_Id = ''200''\<rparr>]"
  "dc_iter_status_changes audit_world ''ABC-4'' = Inl RequestException"
  by (simp_all add: dc_iter_status_changes_def audit_world_def dc_get_def history_events_def
      status_event_def dc_history_of_def dc_status_item_def history_author_def audit_event_def)

lemma audit_search:
  "dc_search_issue_keys_for_project audit_world ''10010'' None 100 = Some (Inr audit_keys)"
  using dc_search_loop_paged[of audit_world "build_jql ''10010'' None" audit_keys 100 0 "[]"]
  by (simp add: dc_search_issue_keys_for_project_def audit_world_def build_jql_def)

lemma audit_reconcile:
  "reconcile_issues audit_world audit_keys = Some (Inr [audit_row])"
  by (simp add: reconcile_issues_def audit_keys_def audit_changes audit_pairs_1 audit_pairs_2
      audit_pairs_3 audit_ids audit_event_def audit_row_def make_row_def pair_of_def
      get_or_empty_def)

lemma audit_exists: "cloud_project_exists audit_world ''ABC'' ''10010'' = Inr True"
  by (simp add: cloud_project_exists_def audit_world_def cloud_get_def)

lemma audit_report:
  "process_project audit_world ''ABC'' ''10010'' None = Some [audit_row]"
  by (simp add: process_project_def process_project_body_def audit_exists audit_search
      audit_reconcile)

section \<open>Drift rows and the target-side fetch\<close>

lemma target_fetch_Some:
  "target_fetch w k = Some (pairs, cid) \<longleftrightarrow>
     cloud_fetch_status_pairs w k = Some (Inr pairs) \<and> cloud_get_issue_id w k = Inr cid"
  by (auto simp: target_fetch_def split: option.splits sum.splits)

lemma target_fetch_None:
  "cloud_fetch_status_pairs w k = Some (Inl e) \<Longrightarrow> target_fetch w k = None"
  "cloud_get_issue_id w k = Inl e' \<Longrightarrow> target_fetch w k = None"
  by (auto simp: target_fetch_def split: option.splits sum.splits)

lemma reconcile_issues_row:
  assumes "reconcile_issues w issue_keys = Some (Inr rows)" "r \<in> set rows"
  shows "\<exists>pairs cid. target_fetch w (issueKey r) = Some (pairs, cid)"
proof (cases "target_fetch w (issueKey r)")
  case None
  with reconcile_issues_issue[OF assms(1), of "issueKey r"]
  have "filter (\<lambda>x. issueKey x = issueKey r) rows = []" by simp
  with assms(2) show ?thesis by (auto simp: filter_empty_conv)
next
  case (Some a)
  then show ?thesis by (cases a) simp
qed

text \<open>
  C1. Every row of a project's report belongs to an issue for which both target-side
  requests, the pair fetch and the id fetch, succeeded; an issue for which either
  raises has no row in the report, whatever transitions the source holds for it.
\<close>

theorem drift_rows_need_target_fetch:
  assumes "process_project w project_key project_id days = Some rows"
  shows "(\<forall>r\<in>set rows. \<exists>pairs cid.
            cloud_fetch_status_pairs w (issueKey r) = Some (Inr pairs) \<and>
            cloud_get_issue_id w (issueKey r) = Inr cid)
         \<and> ((\<exists>e. cloud_fetch_status_pairs w k = Some (Inl e)) \<or>
             (\<exists>e. cloud_get_issue_id w k = Inl e) \<longrightarrow>
            filter (\<lambda>r. issueKey r = k) rows = [])"
proof (cases "rows = []")
  case True
  then show ?thesis by simp
next
  case False
  with process_project_rows[OF assms] obtain issue_keys where
    rec: "reconcile_issues w issue_keys = Some (Inr rows)" by blast
  have "\<exists>pairs cid. cloud_fetch_status_pairs w (issueKey r) = Some (Inr pairs) \<and>
          cloud_get_issue_id w (issueKey r) = Inr cid" if "r \<in> set rows" for r
    using reconcile_issues_row[OF rec that] by (simp add: target_fetch_Some)
  moreover have "filter (\<lambda>r. issueKey r = k) rows = []"
    if "(\<exists>e. cloud_fetch_status_pairs w k = Some (Inl e)) \<or> (\<exists>e. cloud_get_issue_id w k = Inl e)"
  proof -
    from that have "target_fetch w k = None" by (auto intro: target_fetch_None)
    with reconcile_issues_issue[OF rec, of k] show ?thesis by simp
  qed
  ultimately show ?thesis by blast
qed

lemma audit_transitions:
  "source_transitions audit_world audit_keys ''ABC-1'' = [audit_event]"
  "source_transitions audit_world audit_keys ''ABC-2'' =
     [\<lparr>ev_issueKey = ''ABC-2'', ev_dcIssueId = ''502'',
       ev_from_name = Name ''Open'', ev_from_id = Some ''1'',
       ev_to_name = Name ''Done'', ev_to_id = Some ''5'',
       ev_author = ''Carol'', ev_timestamp = ''2024-01-01T00:00:00'',
       ev_changegroup_Id = ''200'', ev_changeitem_Id = ''200''\<rparr>]"
  "source_transitions audit_world audit_keys ''ABC-3'' =
     [\<lparr>ev_issueKey = ''ABC-3'', ev_dcIssueId = ''502'',
       ev_from_name = Name ''Open'', ev_from_id = Some ''1'',
       ev_to_name = Name ''Done'', ev_to_id = Some ''5'',
       ev_author = ''Carol'', ev_timestamp = ''2024-01-01T00:00:00'',
       ev_changegroup_Id = ''200'', ev_changeitem_Id = ''200''\<rparr>]"
  by (simp_all add: source_transitions_def audit_keys_def valid_changes_def audit_changes
      audit_event_def)

theorem drift_rows_need_target_fetch_witness:
  "process_project audit_world ''ABC'' ''10010'' None = Some [audit_row]
   \<and> cloud_fetch_status_pairs audit_world ''ABC-1'' = Some (Inr {(Some ''Open'', Some ''Done'')})
   \<and> cloud_get_issue_id audit_world ''ABC-1'' = Inr ''20001''
   \<and> cloud_fetch_status_pairs audit_world ''ABC-2'' = Some (Inl RuntimeError)
   \<and> length (source_transitions audit_world audit_keys ''ABC-2'') = 1
   \<and> filter (\<lambda>r. issueKey r = ''ABC-2'') [audit_row] = []"
  using drift_rows_need_target_fetch[OF audit_report, of "''ABC-2''"]
  by (simp add: audit_report audit_pairs_1 audit_pairs_2 audit_ids audit_transitions audit_row_def)

lemma reconcile_issues_returns:
  assumes fin: "\<forall>key\<in>set keys. cloud_fetch_status_pairs w key \<noteq> None"
    and str: "\<forall>key\<in>set keys. \<forall>e\<in>set (valid_changes w key). \<not> unhashable e"
  shows "\<exists>rows. reconcile_issues w keys = Some (Inr rows)"
proof -
  obtain d m where dm: "dc_changelogs w keys ([], Map.empty) = (d, m)"
    by (cases "dc_changelogs w keys ([], Map.empty)")
  have ok: "dc_state_ok (d, m)"
    using dc_changelogs_ok[OF dc_state_ok_init, of w keys] dm by simp
  then have dist: "distinct (map fst d)" by (simp add: dc_state_ok_def)
  have sub: "fst ` set d \<subseteq> set keys"
    using dc_changelogs_keys[of w keys "([], Map.empty)"] dm by simp
  show ?thesis
  proof (cases "keys = [] \<or> d = []")
    case True
    then show ?thesis by (simp add: reconcile_issues_unfold[OF dm])
  next
    case False
    from fin sub have "cloud_changelogs w (map fst d) (Map.empty, Map.empty) \<noteq> None"
      by (auto simp: cloud_changelogs_None)
    then obtain cache cloud_ids where
      cl: "cloud_changelogs w (map fst d) (Map.empty, Map.empty) = Some (cache, cloud_ids)"
      by auto
    have "\<not> unhashable e" if "e \<in> set (tested d cache)" for e
    proof -
      have "\<exists>key es. (key, es) \<in> set d \<and> e \<in> set es" if "e \<in> set (tested d' cache)"
        and "set d' \<subseteq> set d" for d'
        using that by (induction d' cache rule: tested.induct) (auto split: option.splits)
      with that obtain key es where m: "(key, es) \<in> set d" and e: "e \<in> set es" by blast
      from m have "entries_of d key = es" by (rule entries_of_member[OF dist])
      moreover have "entries_of d key = source_transitions w keys key"
        using dc_changelogs_entries[of w keys "([], Map.empty)" key] dm by simp
      ultimately have "e \<in> set (valid_changes w key)"
        using e source_transitions_subset[of w keys key] by auto
      moreover from m sub have "key \<in> set keys" by force
      ultimately show ?thesis using str by blast
    qed
    then have "compare_transitions d cache m cloud_ids = Inr (drift_rows d cache m cloud_ids)"
      by (simp add: compare_transitions_eq)
    with False cl show ?thesis by (simp add: reconcile_issues_unfold[OF dm])
  qed
qed

lemma missing_in_hashable:
  "\<not> unhashable e \<Longrightarrow> missing_in pairs e \<longleftrightarrow> pair_of e \<notin> Inr ` pairs"
  by (cases "pair_of e") (auto simp: missing_in_def unhashable_def)

text \<open>
  C2, as the code has it. Take a project whose issues all have a pair fetch that
  returns and whose StatusTransitionEvents all have names that can be hashed, and in it
  an issue that the search lists once and whose pair fetch and id fetch both succeed.
  Then \<open>process_project\<close> writes its report, and the rows of the issue in it are, in
  order, one row for each StatusTransitionEvent of the issue whose pair of names is
  not in the pair set, and none for an event whose pair is in it. The test reads the
  two names only.
\<close>

theorem drift_rows_of_fetched_issue:
  assumes "cloud_project_exists w project_key project_id = Inr True"
    and "dc_search_issue_keys_for_project w project_id days 100 = Some (Inr issue_keys)"
    and "\<forall>key\<in>set issue_keys. cloud_fetch_status_pairs w key \<noteq> None"
    and "\<forall>key\<in>set issue_keys. \<forall>e\<in>set (valid_changes w key). \<not> unhashable e"
    and "count_list issue_keys k = 1"
    and "cloud_fetch_status_pairs w k = Some (Inr pairs)"
    and "cloud_get_issue_id w k = Inr cid"
  shows "\<exists>rows. process_project w project_key project_id days = Some rows \<and>
           filter (\<lambda>r. issueKey r = k) rows =
             map (make_row k (source_id (valid_changes w k)) cid)
               (filter (\<lambda>e. pair_of e \<notin> Inr ` pairs) (valid_changes w k))"
proof -
  from reconcile_issues_returns[OF assms(3,4)] obtain rows where
    rec: "reconcile_issues w issue_keys = Some (Inr rows)" by blast
  with assms(1,2) have pp: "process_project w project_key project_id days = Some rows"
    by (simp add: process_project_def process_project_body_def)
  from assms(6,7) have tf: "target_fetch w k = Some (pairs, cid)"
    by (simp add: target_fetch_Some)
  from assms(5) have "k \<in> set issue_keys"
    by (metis count_list_0_iff zero_neq_one)
  with assms(4) have "\<forall>e\<in>set (valid_changes w k). \<not> unhashable e" by blast
  then have "filter (missing_in pairs) (valid_changes w k) =
      filter (\<lambda>e. pair_of e \<notin> Inr ` pairs) (valid_changes w k)"
    by (intro filter_cong) (simp_all add: missing_in_hashable)
  with reconcile_issues_issue[OF rec, of k] tf source_transitions_once[OF assms(5), of w]
  have "filter (\<lambda>r. issueKey r = k) rows =
             map (make_row k (source_id (valid_changes w k)) cid)
               (filter (\<lambda>e. pair_of e \<notin> Inr ` pairs) (valid_changes w k))"
    by simp
  with pp show ?thesis by blast
qed

lemma audit_pairs_4:
  "cloud_fetch_status_pairs audit_world ''ABC-4'' = Some (Inl RuntimeError)"
  unfolding cloud_fetch_status_pairs_def
  by (subst cloud_fetch_loop.simps) (simp add: audit_world_def cloud_get_def)

lemma audit_valid:
  "valid_changes audit_world ''ABC-1'' = [audit_event]"
  "valid_changes audit_world ''ABC-2'' =
     [\<lparr>ev_issueKey = ''ABC-2'', ev_dcIssueId = ''502'',
       ev_from_name = Name ''Open'', ev_from_id = Some ''1'',
       ev_to_name = Name ''Done'', ev_to_id = Some ''5'',
       ev_author = ''Carol'', ev_timestamp = ''2024-01-01T00:00:00'',
       ev_changegroup_Id = ''200'', ev_changeitem_Id = ''200''\<rparr>]"
  "valid_changes audit_world ''ABC-3'' =
     [\<lparr>ev_issueKey = ''ABC-3'', ev_dcIssueId = ''502'',
       ev_from_name = Name ''Open'', ev_from_id = Some ''1'',
       ev_to_name = Name ''Done'', ev_to_id = Some ''5'',
       ev_author = ''Carol'', ev_timestamp = ''2024-01-01T00:00:00'',
       ev_changegroup_Id = ''200'', ev_changeitem_Id = ''200''\<rparr>]"
  "valid_changes audit_world ''ABC-4'' = []"
  by (simp_all add: valid_changes_def audit_changes audit_event_def)

theorem drift_rows_of_fetched_issue_witness:
  "(\<exists>rows. process_project audit_world ''ABC'' ''10010'' None = Some rows
      \<and> filter (\<lambda>r. issueKey r = ''ABC-1'') rows = [audit_row])
   \<and> make_row ''ABC-1'' ''501'' ''20001'' audit_event = audit_row
   \<and> valid_changes audit_world ''ABC-1'' = [audit_event]"
  using drift_rows_of_fetched_issue[OF audit_exists audit_search _ _ _ audit_pairs_1
      audit_ids(1)]
  by (simp add: audit_keys_def audit_pairs_1 audit_pairs_2 audit_pairs_3 audit_pairs_4
      audit_valid unhashable_def pair_of_def source_id_def audit_event_def audit_row_def
      make_row_def)

text \<open>
  C2 as the specification words it fails: for ABC-3 the pair fetch succeeds with the
  empty set, the source holds one transition, and the report has no row for the
  issue, because its id fetch raised.
\<close>

theorem drift_rows_pair_fetch_only_counterexample:
  "cloud_fetch_status_pairs audit_world ''ABC-3'' = Some (Inr {})
   \<and> dc_search_issue_keys_for_project audit_world ''10010'' None 100 = Some (Inr audit_keys)
   \<and> process_project audit_world ''ABC'' ''10010'' None = Some [audit_row]
   \<and> length (filter (\<lambda>r. issueKey r = ''ABC-3'') [audit_row]) \<noteq>
       length (filter (\<lambda>e. pair_of e \<notin> Inr ` {}) (valid_changes audit_world ''ABC-3''))"
  by (simp add: audit_pairs_3 audit_search audit_report audit_valid audit_row_def)

lemma hang_world_stuck_loop:
  "cloud_fetch_loop w issue_key start_at pairs = Some y \<Longrightarrow>
   w = hang_world \<Longrightarrow> issue_key = ''ABC-2'' \<Longrightarrow> start_at = 0 \<Longrightarrow> False"
proof (induction w issue_key start_at pairs y rule: cloud_fetch_loop.raw_induct[rotated 1, consumes 1])
  case (1 f w issue_key start_at pairs y)
  then show ?case
    by (auto simp: hang_world_def cloud_get_def page_histories_def)
qed

lemma hang_world_pairs:
  "cloud_fetch_status_pairs hang_world ''ABC-2'' = None"
  "cloud_fetch_status_pairs hang_world ''ABC-1'' = Some (Inr {(Some ''Open'', Some ''Done'')})"
proof -
  show "cloud_fetch_status_pairs hang_world ''ABC-2'' = None"
    using hang_world_stuck_loop[of hang_world "''ABC-2''" 0 "{}"]
    by (cases "cloud_fetch_status_pairs hang_world ''ABC-2''")
       (auto simp: cloud_fetch_status_pairs_def)
  show "cloud_fetch_status_pairs hang_world ''ABC-1'' = Some (Inr {(Some ''Open'', Some ''Done'')})"
    unfolding cloud_fetch_status_pairs_def
    by (subst cloud_fetch_loop.simps)
       (simp add: hang_world_def audit_world_def cloud_get_def page_histories_def
          status_pairs_of_def history_of_def status_item_def del: set_filter)
qed

lemma dc_issue_versions_cong:
  "dc_issue_api w = dc_issue_api w' \<Longrightarrow>
   dc_issue_versions w k vers = dc_issue_versions w' k vers"
  by (induction vers) (simp_all split: sum.splits)

lemma dc_iter_status_changes_cong:
  "dc_issue_api w = dc_issue_api w' \<Longrightarrow>
   dc_iter_status_changes w k = dc_iter_status_changes w' k"
  using dc_issue_versions_cong[of w w' k "[''2'', ''3'']"]
  by (simp only: dc_iter_status_changes_def)

lemma hang_world_changes:
  "dc_iter_status_changes hang_world k = dc_iter_status_changes audit_world k"
  by (rule dc_iter_status_changes_cong) (simp add: hang_world_def)

text \<open>
  The hypothesis that every pair fetch of the project returns is needed: with the
  changelog of ABC-2 stuck, both target fetches of ABC-1 succeed and no report is
  written.
\<close>

lemma stuck_changelog_stops_report:
  "cloud_fetch_status_pairs hang_world ''ABC-1'' = Some (Inr {(Some ''Open'', Some ''Done'')})
   \<and> cloud_get_issue_id hang_world ''ABC-1'' = Inr ''20001''
   \<and> process_project hang_world ''ABC'' ''10010'' None = None"
proof -
  have ex: "cloud_project_exists hang_world ''ABC'' ''10010'' = Inr True"
    by (simp add: cloud_project_exists_def hang_world_def audit_world_def cloud_get_def)
  have se: "dc_search_issue_keys_for_project hang_world ''10010'' None 100 = Some (Inr audit_keys)"
    using dc_search_loop_paged[of hang_world "build_jql ''10010'' None" audit_keys 100 0 "[]"]
    by (simp add: dc_search_issue_keys_for_project_def hang_world_def audit_world_def
        build_jql_def)
  have id: "cloud_get_issue_id hang_world ''ABC-1'' = Inr ''20001''"
    by (simp add: cloud_get_issue_id_def hang_world_def audit_world_def cloud_get_def)
  have "reconcile_issues hang_world audit_keys = None"
    by (simp add: reconcile_issues_def audit_keys_def hang_world_changes audit_changes
        hang_world_pairs id audit_event_def)
  with ex se have "process_project hang_world ''ABC'' ''10010'' None = None"
    by (simp add: process_project_def process_project_body_def)
  with id show ?thesis by (simp add: hang_world_pairs)
qed

text \<open>
  The hypothesis that the search lists the issue once is needed: when it lists ABC-1
  twice, the changelog is fetched twice and the one StatusTransitionEvent of ABC-1
  gives two rows.
\<close>

lemma listed_twice_doubles_rows:
  "dc_search_issue_keys_for_project twice_world ''10010'' None 100 =
     Some (Inr [''ABC-1'', ''ABC-1''])
   \<and> valid_changes twice_world ''ABC-1'' = [audit_event]
   \<and> process_project twice_world ''ABC'' ''10010'' None = Some [audit_row, audit_row]"
proof -
  have ex: "cloud_project_exists twice_world ''ABC'' ''10010'' = Inr True"
    by (simp add: cloud_project_exists_def twice_world_def audit_world_def cloud_get_def)
  have se: "dc_search_issue_keys_for_project twice_world ''10010'' None 100 =
      Some (Inr [''ABC-1'', ''ABC-1''])"
    using dc_search_loop_paged[of twice_world "build_jql ''10010'' None"
        "[''ABC-1'', ''ABC-1'']" 100 0 "[]"]
    by (simp add: dc_search_issue_keys_for_project_def twice_world_def)
  have ch: "dc_iter_status_changes twice_world k = dc_iter_status_changes audit_world k" for k
    by (rule dc_iter_status_changes_cong) (simp add: twice_world_def)
  have pa: "cloud_fetch_status_pairs twice_world ''ABC-1'' =
      Some (Inr {(Some ''Open'', Some ''Done'')})"
    unfolding cloud_fetch_status_pairs_def
    by (subst cloud_fetch_loop.simps)
       (simp add: twice_world_def audit_world_def cloud_get_def page_histories_def
          status_pairs_of_def history_of_def status_item_def del: set_filter)
  have id: "cloud_get_issue_id twice_world ''ABC-1'' = Inr ''20001''"
    by (simp add: cloud_get_issue_id_def twice_world_def audit_world_def cloud_get_def)
  have "reconcile_issues twice_world [''ABC-1'', ''ABC-1''] = Some (Inr [audit_row, audit_row])"
    by (simp add: reconcile_issues_def ch audit_changes pa id audit_event_def audit_row_def
        make_row_def pair_of_def get_or_empty_def)
  with ex se have "process_project twice_world ''ABC'' ''10010'' None = Some [audit_row, audit_row]"
    by (simp add: process_project_def process_project_body_def)
  with se show ?thesis by (simp add: valid_changes_def ch audit_changes audit_event_def)
qed

section \<open>Skipping one issue\<close>












section \<open>Failure isolation\<close>
















section \<open>Resuming a run\<close>

lemma upper_Nil [simp]: "upper s = [] \<longleftrightarrow> s = []"
  by (simp add: upper_def)

lemma resume_scan_none:
  "\<forall>p\<in>set ps. upper (p_key p) \<noteq> rk \<Longrightarrow> resume_scan rk ps i = None"
  by (induction ps arbitrary: i) auto

lemma resume_scan_first:
  assumes "k < length ps" "upper (p_key (ps ! k)) = rk"
    and "\<forall>j<k. upper (p_key (ps ! j)) \<noteq> rk"
  shows "resume_scan rk ps i = Some (i + k)"
  using assms
proof (induction ps arbitrary: i k)
  case Nil
  then show ?case by simp
next
  case (Cons p ps)
  show ?case
  proof (cases k)
    case 0
    with Cons.prems show ?thesis by simp
  next
    case (Suc k')
    with Cons.prems have "upper (p_key p) \<noteq> rk" by auto
    moreover have "resume_scan rk ps (Suc i) = Some (Suc i + k')"
    proof (rule Cons.IH)
      show "k' < length ps" using Cons.prems(1) Suc by simp
      show "upper (p_key (ps ! k')) = rk" using Cons.prems(2) Suc by simp
      show "\<forall>j<k'. upper (p_key (ps ! j)) \<noteq> rk"
      proof (intro allI impI)
        fix j assume "j < k'"
        then have "Suc j < k" using Suc by simp
        with Cons.prems(3) have "upper (p_key ((p # ps) ! Suc j)) \<noteq> rk" by blast
        then show "upper (p_key (ps ! j)) \<noteq> rk" by simp
      qed
    qed
    ultimately show ?thesis using Suc by simp
  qed
qed

lemma dc_list_versions_keys:
  "dc_list_versions w vers = Inr ps \<Longrightarrow> \<forall>p\<in>set ps. p_key p \<noteq> []"
proof (induction vers)
  case Nil
  then show ?case by simp
next
  case (Cons ver vers)
  then show ?case
    by (auto simp: parse_projects_filter project_of_def split: sum.splits if_splits)
       (metis str_or_empty.simps(2) truthy.elims(2))
qed

lemma main_resume:
  assumes "dc_list_projects w = Inr ps"
  shows "main w \<lparr>only = None, resume_from = resume, updated_since_days = days\<rparr> =
           map_option Inr (run_projects w days (drop (start_index resume ps) ps))"
  using assms by (simp add: main_def)


text \<open>
  C9, as the code has it. With the resume key equal, up to case, to the key of
  \<open>projects[k]\<close> and to no earlier key, the run processes exactly \<open>projects[k:]\<close> and
  writes the reports that processing \<open>projects[k:]\<close> writes. A resume key equal to no
  key, up to case, gives the run without a resume key.
\<close>

theorem resume_from_first_match:
  assumes "dc_list_projects w = Inr ps"
  shows "(k < length ps \<and> upper r = upper (p_key (ps ! k))
            \<and> (\<forall>j<k. upper (p_key (ps ! j)) \<noteq> upper r) \<longrightarrow>
          main w \<lparr>only = None, resume_from = Some r, updated_since_days = days\<rparr> =
            map_option Inr (run_projects w days (drop k ps)))
         \<and> ((\<forall>p\<in>set ps. upper (p_key p) \<noteq> upper r) \<longrightarrow>
          main w \<lparr>only = None, resume_from = Some r, updated_since_days = days\<rparr> =
            main w \<lparr>only = None, resume_from = None, updated_since_days = days\<rparr>)"
proof (intro conjI impI)
  assume a: "k < length ps \<and> upper r = upper (p_key (ps ! k))
            \<and> (\<forall>j<k. upper (p_key (ps ! j)) \<noteq> upper r)"
  then have "ps ! k \<in> set ps" by simp
  with assms have "p_key (ps ! k) \<noteq> []"
    using dc_list_versions_keys[of w "[''2'', ''3'']" ps] by (simp add: dc_list_projects_def)
  with a have "upper r \<noteq> []" by simp
  then have ne: "r \<noteq> []" by simp
  from a have "resume_scan (upper r) ps 0 = Some (0 + k)"
    by (intro resume_scan_first) auto
  with ne have "start_index (Some r) ps = k" by (simp add: start_index_def)
  then show "main w \<lparr>only = None, resume_from = Some r, updated_since_days = days\<rparr> =
            map_option Inr (run_projects w days (drop k ps))"
    by (simp add: main_resume[OF assms])
next
  assume "\<forall>p\<in>set ps. upper (p_key p) \<noteq> upper r"
  then have "resume_scan (upper r) ps 0 = None" by (rule resume_scan_none)
  then have "start_index (Some r) ps = 0" by (simp add: start_index_def)
  moreover have "start_index None ps = 0" by (simp add: start_index_def)
  ultimately show "main w \<lparr>only = None, resume_from = Some r, updated_since_days = days\<rparr> =
            main w \<lparr>only = None, resume_from = None, updated_since_days = days\<rparr>"
    by (simp add: main_resume[OF assms])
qed

lemma listing_world_projects:
  "dc_list_projects (listing_world js) =
     Inr (map project_of (filter (\<lambda>p. truthy (pj_key p) \<and> truthy (pj_id p)) js))"
  by (simp add: dc_list_projects_def listing_world_def empty_systems_def dc_get_def
      parse_projects_filter)

lemma listing_world_report [simp]:
  "process_project (listing_world js) project_key project_id days = Some []"
proof -
  have "cloud_project_exists (listing_world js) project_key project_id = Inr False"
    by (simp add: cloud_project_exists_def listing_world_def empty_systems_def cloud_get_def)
  then show ?thesis by (rule process_project_absent)
qed

lemmas listing_simps = listing_world_projects listed_def project_of_def upper_def upper_char_def

theorem resume_from_first_match_witness:
  "main three_projects \<lparr>only = None, resume_from = Some ''Two'', updated_since_days = None\<rparr> =
     Some (Inr [(''two'', []), (''THREE'', [])])
   \<and> main three_projects \<lparr>only = None, resume_from = Some ''FOUR'', updated_since_days = None\<rparr> =
     Some (Inr [(''ONE'', []), (''two'', []), (''THREE'', [])])"
proof -
  have ps: "dc_list_projects three_projects =
      Inr [\<lparr>p_key = ''ONE'', p_id = ''1'', p_name = ''ONE''\<rparr>,
           \<lparr>p_key = ''two'', p_id = ''2'', p_name = ''two''\<rparr>,
           \<lparr>p_key = ''THREE'', p_id = ''3'', p_name = ''THREE''\<rparr>]"
    by (simp add: three_projects_def listing_simps)
  show ?thesis
    using resume_from_first_match[OF ps, of 1 "''Two''" None]
      resume_from_first_match[OF ps, of _ "''FOUR''" None]
    by (simp add: three_projects_def upper_def upper_char_def main_resume[OF ps[unfolded three_projects_def]]
        start_index_def)
qed

text \<open>
  C9 as the specification words it fails: with the keys \<open>ab\<close> and \<open>AB\<close>, resuming
  from the key of \<open>projects[1]\<close> matches \<open>projects[0]\<close> first and processes both
  projects, not \<open>projects[1:]\<close>.
\<close>

theorem resume_from_every_index_counterexample:
  "dc_list_projects case_twins =
     Inr [\<lparr>p_key = ''ab'', p_id = ''1'', p_name = ''ab''\<rparr>,
          \<lparr>p_key = ''AB'', p_id = ''2'', p_name = ''AB''\<rparr>]
   \<and> main case_twins \<lparr>only = None, resume_from = Some ''AB'', updated_since_days = None\<rparr> =
       Some (Inr [(''ab'', []), (''AB'', [])])
   \<and> map_option Inr (run_projects case_twins None
         (drop 1 [\<lparr>p_key = ''ab'', p_id = ''1'', p_name = ''ab''\<rparr>,
                  \<lparr>p_key = ''AB'', p_id = ''2'', p_name = ''AB''\<rparr>])) =
       Some (Inr [(''AB'', [])])"
proof -
  have ps: "dc_list_projects case_twins =
     Inr [\<lparr>p_key = ''ab'', p_id = ''1'', p_name = ''ab''\<rparr>,
          \<lparr>p_key = ''AB'', p_id = ''2'', p_name = ''AB''\<rparr>]"
    by (simp add: case_twins_def listing_simps)
  then show ?thesis
    by (simp add: main_resume[OF ps] start_index_def upper_def upper_char_def)
       (simp add: case_twins_def)
qed

end
